theory Spec2Isabelle
  imports
    Complex_Main
    "HOL-Library.Char_ord"
    "HOL-Library.List_Lexorder"
    "HOL-Library.FSet"
begin

section \<open>Data model\<close>

text \<open>
  Object ids are handled through their string rendering (\<open>toString()\<close>, which is also what
  the template literals of the services print); instants (\<open>Date\<close>, \<open>Date.now()\<close>) are
  milliseconds since the epoch. Numbers that the source keeps as IEEE doubles (the score, the
  toxicity) are idealised as reals.
\<close>

type_synonym oid = string
type_synonym time = int

text \<open>\<open>ApiError(message, statusCode)\<close> of \<open>utils/helpers/apiError.js\<close>; the next two
  constructors stand for the errors the mongoose layer raises by itself, the last one for
  the \<open>TypeError\<close> of the language.\<close>

datatype error =
    ApiError string nat
  | ValidationError string
  | MongoError string
  | TypeError string

text \<open>An array element of the shape \<open>{user, <date>}\<close>: the entries of \<open>members\<close>
  (\<open>joinedAt\<close>), \<open>moderators\<close> (\<open>addedAt\<close>), \<open>readBy\<close> (\<open>readAt\<close>) and \<open>deliveredTo\<close>
  (\<open>deliveredAt\<close>). The \<open>role\<close> of a member is read by none of the functions below.\<close>

record user_at =
  user :: oid
  stamp :: time

text \<open>\<open>models/Community.model.js\<close>, the paths that the services read or write.\<close>

record community =
  owner :: oid
  moderators :: "user_at list"
  members :: "user_at list"
  postPermissions :: string
  postCount :: int
  isActive :: bool

text \<open>\<open>models/User.model.js\<close>: the status mirror and the community references.\<close>

record user_doc =
  username :: string
  isOnline :: bool
  lastSeen :: time
  communities :: "oid list"

text \<open>The reply of the moderation service, \<open>response.data\<close> of \<open>POST /moderate\<close>.\<close>

record moderation =
  toxicity_score :: real
  is_safe :: bool
  flagged :: bool
  sentiment :: "string option"
  categories :: "string list option"
  error :: "string option"

datatype ai_reply = Replied moderation | Failed string

record post_analysis =
  pa_sentiment :: "string option"
  pa_toxicityScore :: real
  pa_categories :: "string list"
  analyzedAt :: time

text \<open>\<open>models/Post.model.js\<close>. The \<open>_id\<close> of a post is the key under which the
  collection \<open>db_posts\<close> holds it.\<close>

record post =
  title :: string
  content :: string
  author :: oid
  community :: oid
  upvotes :: "oid list"
  downvotes :: "oid list"
  score :: real
  commentCount :: int
  isDeleted :: bool
  aiAnalysis :: "post_analysis option"
  createdAt :: time

record msg_analysis =
  ma_sentiment :: "string option"
  ma_toxicityScore :: real

text \<open>\<open>models/Message.model.js\<close>, together with the \<open>aiAnalysis\<close> that \<open>sendMessage\<close> puts
  into the data it hands to \<open>Message.create\<close>.\<close>

record message =
  msg_id :: oid
  sender :: oid
  receiver :: "oid option"
  msg_community :: "oid option"
  channel :: string
  msg_content :: string
  msg_type :: string
  media :: "string option"
  readBy :: "user_at list"
  deliveredTo :: "user_at list"
  msg_isDeleted :: bool
  deletedFor :: "oid list"
  replyTo :: "oid option"
  msg_aiAnalysis :: "msg_analysis option"
  msg_createdAt :: time

text \<open>The result object of a community listing and what the cache may hold.\<close>

record listing =
  listed :: "post list"
  page_no :: nat
  page_limit :: nat
  total :: nat

datatype cached = CachedPost post | CachedListing listing

text \<open>The \<open>user_presence\<close> payload that \<open>notifyCommunities\<close> emits to a room.\<close>

record user_presence =
  up_room :: string
  up_userId :: oid
  up_username :: string
  up_isOnline :: bool
  up_lastSeen :: time

text \<open>
  Everything the modelled functions read or write: the four collections, the cache (each
  entry with the instant at which it expires), the in-memory presence registry
  \<open>userSockets\<close> (user id to the set of socket ids) and the events handed to socket.io.
\<close>

record state =
  db_users :: "oid \<rightharpoonup> user_doc"
  db_communities :: "oid \<rightharpoonup> community"
  db_posts :: "oid \<rightharpoonup> post"
  db_messages :: "message list"
  redis :: "string \<rightharpoonup> cached \<times> time"
  userSockets :: "oid \<rightharpoonup> string fset"
  emitted :: "user_presence list"

section \<open>Post model: the save hook\<close>

text \<open>
  \<open>postSchema.pre('save')\<close>, with \<open>now\<close> the value of \<open>Date.now()\<close>. \<open>Math.round\<close> rounds
  halves up, as \<^const>\<open>round\<close> does. The local \<open>seconds\<close> is computed and never used.
\<close>

definition pre_save :: "time \<Rightarrow> post \<Rightarrow> post" where
  "pre_save now p =
     (let ageInHours = real_of_int (now - createdAt p) / (1000 * 60 * 60);
          voteCount = int (length (upvotes p)) - int (length (downvotes p));
          commentWeight = real_of_int (commentCount p) * 0.5;
          order = log 10 (real_of_int (max \<bar>voteCount\<bar> 1));
          sign = (if voteCount > 0 then 1 else if voteCount < 0 then - 1 else (0::real));
          seconds = real_of_int (createdAt p) / 1000 - 1134028003
      in p\<lparr>score :=
           real_of_int (round ((order + sign * ageInHours / 45000 + commentWeight) * 10000))
             / 10000\<rparr>)"

text \<open>\<open>post.save()\<close>: the hook runs, then the document replaces the stored one.\<close>

definition save_post :: "state \<Rightarrow> time \<Rightarrow> oid \<Rightarrow> post \<Rightarrow> post \<times> state" where
  "save_post st now postId p =
     (let p' = pre_save now p
      in (p', st\<lparr>db_posts := (db_posts st)(postId \<mapsto> p')\<rparr>))"


section \<open>The cache service\<close>

text \<open>
  Modelled from the spec: \<open>services/redis.service.js\<close> is not among the sources. The
  specification gives its interface, \<open>get(key) -> value|absent\<close>,
  \<open>set(key, value, ttlSeconds) -> void\<close>, \<open>clearPattern(prefixPattern) -> void\<close>, and calls
  the last one prefix-pattern deletion by string-prefix matching: a pattern that ends in
  \<open>*\<close> removes every key that starts with the text before the star, any other pattern
  removes the key of that name.
\<close>

definition pattern_matches :: "string \<Rightarrow> string \<Rightarrow> bool" where
  "pattern_matches pat key =
     (if pat \<noteq> [] \<and> last pat = CHR ''*''
      then take (length pat - 1) key = butlast pat
      else key = pat)"

definition redis_get :: "state \<Rightarrow> string \<Rightarrow> time \<Rightarrow> cached option" where
  "redis_get st key now =
     (case redis st key of
        None \<Rightarrow> None
      | Some (v, expires) \<Rightarrow> if now < expires then Some v else None)"

definition redis_set :: "state \<Rightarrow> string \<Rightarrow> cached \<Rightarrow> nat \<Rightarrow> time \<Rightarrow> state" where
  "redis_set st key v ttlSeconds now =
     st\<lparr>redis := (redis st)(key \<mapsto> (v, now + 1000 * int ttlSeconds))\<rparr>"

definition clearPattern :: "state \<Rightarrow> string \<Rightarrow> state" where
  "clearPattern st pat =
     st\<lparr>redis := (\<lambda>key. if pattern_matches pat key then None else redis st key)\<rparr>"

section \<open>Post service: votes\<close>

text \<open>
  \<open>PostService.upvotePost\<close> and \<open>downvotePost\<close>. \<open>includes\<close> is membership, \<open>pull\<close>
  removes every occurrence, \<open>push\<close> appends; both flags are read before the arrays change.
\<close>

definition upvotePost :: "state \<Rightarrow> oid \<Rightarrow> oid \<Rightarrow> time \<Rightarrow> error + post \<times> state" where
  "upvotePost st postId userId now =
     (case db_posts st postId of
        None \<Rightarrow> Inl (ApiError ''Post not found'' 404)
      | Some post \<Rightarrow>
          if isDeleted post then Inl (ApiError ''Post has been deleted'' 404)
          else
            let alreadyUpvoted = userId \<in> set (upvotes post);
                alreadyDownvoted = userId \<in> set (downvotes post);
                post1 =
                  (if alreadyUpvoted then post\<lparr>upvotes := removeAll userId (upvotes post)\<rparr>
                   else
                     let pushed = post\<lparr>upvotes := upvotes post @ [userId]\<rparr>
                     in if alreadyDownvoted
                        then pushed\<lparr>downvotes := removeAll userId (downvotes pushed)\<rparr>
                        else pushed);
                (post2, st1) = save_post st now postId post1;
                st2 = clearPattern st1 (''post:'' @ postId @ '':*'');
                st3 = clearPattern st2 (''community:'' @ community post2 @ '':posts:*'')
            in Inr (post2, st3))"

definition downvotePost :: "state \<Rightarrow> oid \<Rightarrow> oid \<Rightarrow> time \<Rightarrow> error + post \<times> state" where
  "downvotePost st postId userId now =
     (case db_posts st postId of
        None \<Rightarrow> Inl (ApiError ''Post not found'' 404)
      | Some post \<Rightarrow>
          if isDeleted post then Inl (ApiError ''Post has been deleted'' 404)
          else
            let alreadyDownvoted = userId \<in> set (downvotes post);
                alreadyUpvoted = userId \<in> set (upvotes post);
                post1 =
                  (if alreadyDownvoted
                   then post\<lparr>downvotes := removeAll userId (downvotes post)\<rparr>
                   else
                     let pushed = post\<lparr>downvotes := downvotes post @ [userId]\<rparr>
                     in if alreadyUpvoted
                        then pushed\<lparr>upvotes := removeAll userId (upvotes pushed)\<rparr>
                        else pushed);
                (post2, st1) = save_post st now postId post1;
                st2 = clearPattern st1 (''post:'' @ postId @ '':*'');
                st3 = clearPattern st2 (''community:'' @ community post2 @ '':posts:*'')
            in Inr (post2, st3))"

text \<open>
  A run of vote requests, each with its post, its user and its clock. A request that throws
  leaves the state as it was and the next request is served all the same.
\<close>

datatype vote = Upvote oid oid time | Downvote oid oid time

fun cast_vote :: "state \<Rightarrow> vote \<Rightarrow> error + post \<times> state" where
  "cast_vote st (Upvote postId userId now) = upvotePost st postId userId now"
| "cast_vote st (Downvote postId userId now) = downvotePost st postId userId now"

fun cast_votes :: "state \<Rightarrow> vote list \<Rightarrow> state" where
  "cast_votes st [] = st"
| "cast_votes st (v # vs) =
     cast_votes (case cast_vote st v of Inl e \<Rightarrow> st | Inr (p, st') \<Rightarrow> st') vs"

section \<open>Post service: creating a post\<close>

text \<open>
  \<open>AIService.moderateContent\<close>. The argument \<open>ai\<close> is the moderation service seen from
  the client: what \<open>POST /moderate\<close> does for a text, a reply or a failure (an error status,
  a refused connection, the ten-second timeout). The \<open>catch\<close> turns every failure into the
  safe default object.
\<close>

definition moderateContent :: "(string \<Rightarrow> ai_reply) \<Rightarrow> string \<Rightarrow> moderation" where
  "moderateContent ai text =
     (case ai text of
        Replied data \<Rightarrow> data
      | Failed msg \<Rightarrow>
          \<lparr>toxicity_score = 0, is_safe = True, flagged = False, sentiment = None,
           categories = None, error = Some ''Moderation service unavailable''\<rparr>)"

text \<open>The request body of \<open>createPost\<close> after validation (\<open>schemas.createPost\<close>); the
  optional \<open>type\<close>, \<open>media\<close>, \<open>linkPreview\<close>, \<open>poll\<close> and \<open>tags\<close> play no part below.\<close>

record post_data =
  communityId :: oid
  data_title :: string
  data_content :: string

text \<open>\<open>String.prototype.trim\<close> on the one-byte white space characters.\<close>

definition is_space :: "char \<Rightarrow> bool" where
  "is_space c \<longleftrightarrow> c \<in> set [CHR 0x09, CHR 0x0A, CHR 0x0B, CHR 0x0C, CHR 0x0D, CHR '' '']"

definition trim :: "string \<Rightarrow> string" where
  "trim s = rev (dropWhile is_space (rev (dropWhile is_space s)))"

text \<open>
  \<open>Post.create(postData)\<close>: the schema's setters and validators (\<open>title\<close>: required,
  trimmed, at most 300; \<open>content\<close>: required, at most 10000), the defaults, the creation
  stamp, the unique \<open>_id\<close> (\<open>newId\<close>, chosen by the driver) and the save hook.
\<close>

definition Post_create ::
  "state \<Rightarrow> string \<Rightarrow> string \<Rightarrow> oid \<Rightarrow> oid \<Rightarrow> post_analysis option \<Rightarrow> time \<Rightarrow> oid
     \<Rightarrow> error + post \<times> state" where
  "Post_create st ttl cnt auth comm analysis now newId =
     (if trim ttl = [] then Inl (ValidationError ''Path `title` is required.'')
      else if length (trim ttl) > 300
        then Inl (ValidationError ''Path `title` is longer than the maximum allowed length'')
      else if cnt = [] then Inl (ValidationError ''Path `content` is required.'')
      else if length cnt > 10000
        then Inl (ValidationError ''Path `content` is longer than the maximum allowed length'')
      else if db_posts st newId \<noteq> None then Inl (MongoError ''E11000 duplicate key error'')
      else Inr (save_post st now newId
             \<lparr>title = trim ttl, content = cnt, author = auth, community = comm, upvotes = [],
              downvotes = [], score = 0, commentCount = 0, isDeleted = False,
              aiAnalysis = analysis, createdAt = now\<rparr>))"

text \<open>
  \<open>PostService.createPost\<close>. The moderation block is a \<open>try\<close> whose \<open>catch\<close> only logs a
  warning: the \<open>ApiError\<close> thrown for flagged content is raised inside that \<open>try\<close>, after
  \<open>aiAnalysis\<close> has been assigned, so both outcomes of the check continue with the analysis.
\<close>

definition createPost ::
  "state \<Rightarrow> post_data \<Rightarrow> oid \<Rightarrow> (string \<Rightarrow> ai_reply) \<Rightarrow> time \<Rightarrow> oid \<Rightarrow> error + post \<times> state" where
  "createPost st data userId ai now newId =
     (case db_communities st (communityId data) of
        None \<Rightarrow> Inl (ApiError ''Community not found'' 404)
      | Some comm \<Rightarrow>
          if \<not> isActive comm then Inl (ApiError ''Community is not active'' 400)
          else if \<not> list_ex (\<lambda>member. user member = userId) (members comm)
            then Inl (ApiError ''You must be a member to post in this community'' 403)
          else if postPermissions comm = ''moderators'' \<and>
                  \<not> (list_ex (\<lambda>moderator. user moderator = userId) (moderators comm) \<or>
                     owner comm = userId)
            then Inl (ApiError ''Only moderators can post in this community'' 403)
          else
            let analysis =
                  (if data_content data \<noteq> [] \<and> length (data_content data) > 10
                   then
                     let answer = moderateContent ai (data_content data)
                     in (case (if flagged answer \<or> toxicity_score answer > 0.7
                               then Inl (ApiError ''Content violates community guidelines'' 400)
                               else Inr ()) of
                           Inl aiError \<Rightarrow> Some answer
                         | Inr ok \<Rightarrow> Some answer)
                   else None);
                stored =
                  (case analysis of
                     None \<Rightarrow> None
                   | Some answer \<Rightarrow>
                       Some \<lparr>pa_sentiment = sentiment answer,
                             pa_toxicityScore = toxicity_score answer,
                             pa_categories =
                               (case categories answer of None \<Rightarrow> [] | Some cs \<Rightarrow> cs),
                             analyzedAt = now\<rparr>)
            in (case Post_create st (data_title data) (data_content data) userId
                       (communityId data) stored now newId of
                  Inl e \<Rightarrow> Inl e
                | Inr (post, st1) \<Rightarrow>
                    let st2 = st1\<lparr>db_communities :=
                                (db_communities st1)(communityId data \<mapsto>
                                   comm\<lparr>postCount := postCount comm + 1\<rparr>)\<rparr>;
                        st3 = clearPattern st2 (''community:'' @ communityId data @ '':posts:*'');
                        st4 = clearPattern st3 (''user:'' @ userId @ '':posts'')
                    in Inr (post, st4)))"

text \<open>Decimal rendering of a number inside a template literal.\<close>

fun show_nat :: "nat \<Rightarrow> string" where
  "show_nat n =
     (if n < 10 then [''0123456789'' ! n]
      else show_nat (n div 10) @ [''0123456789'' ! (n mod 10)])"

text \<open>
  \<open>PostService.getPostsByCommunity\<close>, the read-through part: \<open>filters\<close> is
  \<open>JSON.stringify(filters)\<close>; \<open>page\<close>, \<open>limit\<close> and \<open>sorting\<close> are the values after the
  defaults of the destructuring (1, 20, \<open>-score\<close>); and \<open>fetched\<close> is the result object that
  the database query of the function (\<open>Post.find\<close>, the pinned posts, \<open>countDocuments\<close>)
  produces on a miss.
\<close>

definition getPostsByCommunity ::
  "state \<Rightarrow> oid \<Rightarrow> string \<Rightarrow> nat \<Rightarrow> nat \<Rightarrow> string \<Rightarrow> time \<Rightarrow> listing \<Rightarrow> cached \<times> state" where
  "getPostsByCommunity st commId filters page limit sorting now fetched =
     (let cacheKey = ''community:'' @ commId @ '':posts:'' @ filters @ '':'' @ show_nat page
                       @ '':'' @ show_nat limit @ '':'' @ sorting
      in case redis_get st cacheKey now of
           Some hit \<Rightarrow> (hit, st)
         | None \<Rightarrow> (CachedListing fetched, redis_set st cacheKey (CachedListing fetched) 30 now))"

section \<open>Chat service\<close>

text \<open>
  \<open>ChatService.getDirectMessageChannel\<close>: \<open>Array.prototype.sort\<close> without a comparator
  orders the two strings by their code units, which is the lexicographic order of
  \<^typ>\<open>string\<close>.
\<close>

definition getDirectMessageChannel :: "oid \<Rightarrow> oid \<Rightarrow> string" where
  "getDirectMessageChannel userId1 userId2 =
     (let sortedIds = sort [userId1, userId2]
      in ''dm:'' @ sortedIds ! 0 @ '':'' @ sortedIds ! 1)"

text \<open>The payload of \<open>sendMessage\<close>; an absent field is \<open>None\<close>, and an absent or empty
  \<open>content\<close> is the empty string (both are falsy and both fail \<open>required\<close>).\<close>

record message_data =
  md_content :: string
  md_communityId :: "oid option"
  md_receiverId :: "oid option"
  md_type :: "string option"
  md_media :: "string option"
  md_replyTo :: "oid option"

text \<open>Truthiness of an optional string: \<open>undefined\<close> and \<open>''\<close> are falsy.\<close>

definition truthy :: "string option \<Rightarrow> bool" where
  "truthy x \<longleftrightarrow> x \<noteq> None \<and> x \<noteq> Some []"

definition Message_findById :: "state \<Rightarrow> oid \<Rightarrow> message option" where
  "Message_findById st messageId = find (\<lambda>m. msg_id m = messageId) (db_messages st)"

text \<open>
  \<open>Message.create(messageData)\<close>: the validators of the schema (\<open>content\<close>: required, at
  most 2000; \<open>type\<close>: one of the enumeration), the unique \<open>_id\<close> and the creation stamp.
\<close>

definition Message_create :: "state \<Rightarrow> message \<Rightarrow> error + message \<times> state" where
  "Message_create st doc =
     (if msg_content doc = [] then Inl (ValidationError ''Path `content` is required.'')
      else if length (msg_content doc) > 2000
        then Inl (ValidationError ''Path `content` is longer than the maximum allowed length'')
      else if msg_type doc \<notin> set [''text'', ''image'', ''file'', ''system'']
        then Inl (ValidationError ''`type` is not a valid enum value'')
      else if Message_findById st (msg_id doc) \<noteq> None
        then Inl (MongoError ''E11000 duplicate key error'')
      else Inr (doc, st\<lparr>db_messages := db_messages st @ [doc]\<rparr>))"

text \<open>
  The block of \<open>sendMessage\<close> that sets the recipient: the community, the receiver and the
  channel of the message, or the error that ends the request.
\<close>

definition set_recipient ::
  "state \<Rightarrow> message_data \<Rightarrow> oid \<Rightarrow> error + oid option \<times> oid option \<times> string" where
  "set_recipient st data userId =
     (if truthy (md_communityId data) then
        (case db_communities st (the (md_communityId data)) of
           None \<Rightarrow> Inl (ApiError ''Community not found'' 404)
         | Some comm \<Rightarrow>
             if \<not> isActive comm then Inl (ApiError ''Community is not active'' 400)
             else if \<not> list_ex (\<lambda>member. user member = userId) (members comm)
               then Inl (ApiError ''You must be a member to send messages in this community'' 403)
             else Inr (md_communityId data, None,
                       ''community:'' @ the (md_communityId data)))
      else
        (case db_users st (the (md_receiverId data)) of
           None \<Rightarrow> Inl (ApiError ''Receiver not found'' 404)
         | Some receiver_doc \<Rightarrow>
             Inr (None, md_receiverId data,
                  getDirectMessageChannel userId (the (md_receiverId data)))))"

text \<open>
  \<open>ChatService.sendMessage\<close>; \<open>newId\<close> is the \<open>_id\<close> that the driver gives the message.
  As in \<open>createPost\<close>, the error for flagged content is thrown inside the \<open>try\<close> whose
  \<open>catch\<close> only logs. \<open>set_recipient\<close> is reached only when exactly one of the two ids is
  truthy, so \<^const>\<open>the\<close> is applied to a present value.
\<close>

definition sendMessage ::
  "state \<Rightarrow> message_data \<Rightarrow> oid \<Rightarrow> (string \<Rightarrow> ai_reply) \<Rightarrow> time \<Rightarrow> oid
     \<Rightarrow> error + message \<times> state" where
  "sendMessage st data userId ai now newId =
     (if \<not> truthy (md_communityId data) \<and> \<not> truthy (md_receiverId data)
        then Inl (ApiError ''Either communityId or receiverId is required'' 400)
      else if truthy (md_communityId data) \<and> truthy (md_receiverId data)
        then Inl (ApiError ''Cannot specify both communityId and receiverId'' 400)
      else
        let analysis =
              (if md_content data \<noteq> [] \<and> length (md_content data) > 10
               then
                 let answer = moderateContent ai (md_content data)
                 in (case (if flagged answer \<or> toxicity_score answer > 0.7
                           then Inl (ApiError ''Message violates community guidelines'' 400)
                           else Inr ()) of
                       Inl aiError \<Rightarrow> Some answer
                     | Inr ok \<Rightarrow> Some answer)
               else None)
        in (case set_recipient st data userId of
              Inl e \<Rightarrow> Inl e
            | Inr (comm, recv, chan) \<Rightarrow>
                if truthy (md_replyTo data) \<and> Message_findById st (the (md_replyTo data)) = None
                  then Inl (ApiError ''Replied message not found'' 404)
                else
                  Message_create st
                    \<lparr>msg_id = newId, sender = userId, receiver = recv, msg_community = comm,
                     channel = chan, msg_content = md_content data,
                     msg_type = (case md_type data of None \<Rightarrow> ''text'' | Some t \<Rightarrow> t),
                     media = (if truthy (md_media data) then md_media data else None),
                     readBy = [],
                     deliveredTo = [\<lparr>user = userId, stamp = now\<rparr>],
                     msg_isDeleted = False, deletedFor = [],
                     replyTo = (if truthy (md_replyTo data) then md_replyTo data else None),
                     msg_aiAnalysis =
                       (case analysis of
                          None \<Rightarrow> None
                        | Some answer \<Rightarrow>
                            Some \<lparr>ma_sentiment = sentiment answer,
                                  ma_toxicityScore = toxicity_score answer\<rparr>),
                     msg_createdAt = now\<rparr>))"

text \<open>\<open>ChatService.isCommunityMember\<close>.\<close>

definition isCommunityMember :: "state \<Rightarrow> oid \<Rightarrow> oid \<Rightarrow> bool" where
  "isCommunityMember st commId userId =
     (case db_communities st commId of
        None \<Rightarrow> False
      | Some comm \<Rightarrow> list_ex (\<lambda>member. user member = userId) (members comm))"

text \<open>
  \<open>ChatService.markAsRead\<close>. \<open>message.save()\<close> replaces the stored document of that
  \<open>_id\<close>.
\<close>

definition markAsRead :: "state \<Rightarrow> oid \<Rightarrow> oid \<Rightarrow> time \<Rightarrow> error + message \<times> state" where
  "markAsRead st messageId userId now =
     (case Message_findById st messageId of
        None \<Rightarrow> Inl (ApiError ''Message not found'' 404)
      | Some msg \<Rightarrow>
          let isParticipant =
                (sender msg = userId \<or>
                 (truthy (receiver msg) \<and> receiver msg = Some userId) \<or>
                 (truthy (msg_community msg) \<and>
                    isCommunityMember st (the (msg_community msg)) userId))
          in if \<not> isParticipant
               then Inl (ApiError ''Not authorized to mark this message as read'' 403)
             else
               let alreadyRead = list_ex (\<lambda>read. user read = userId) (readBy msg)
               in if \<not> alreadyRead
                  then
                    let msg' = msg\<lparr>readBy := readBy msg @ [\<lparr>user = userId, stamp = now\<rparr>]\<rparr>
                    in Inr (msg', st\<lparr>db_messages :=
                                    map (\<lambda>m. if msg_id m = messageId then msg' else m)
                                      (db_messages st)\<rparr>)
                  else Inr (msg, st))"

text \<open>
  The pagination of \<open>getCommunityMessages\<close>. A negative \<open>skip\<close> (page 0) is refused by the
  database, and a \<open>limit\<close> of 0 means no limit.
\<close>

record pagination =
  page :: nat
  limit :: nat
  before :: "time option"

text \<open>
  The update of \<open>updateMany\<close> on one document: the filter
  \<open>{_id: {$in: messageIds}, 'deliveredTo.user': {$ne: userId}}\<close> selects a message of the
  page that has no entry of the user yet, and \<open>$push\<close> appends one.
\<close>

definition mark_delivered :: "oid list \<Rightarrow> oid \<Rightarrow> time \<Rightarrow> message \<Rightarrow> message" where
  "mark_delivered messageIds userId now m =
     (if msg_id m \<in> set messageIds \<and> userId \<notin> set (map user (deliveredTo m))
      then m\<lparr>deliveredTo := deliveredTo m @ [\<lparr>user = userId, stamp = now\<rparr>]\<rparr>
      else m)"

text \<open>
  The query of \<open>getCommunityMessages\<close>: the messages of the community that are not deleted
  and not deleted for the user (a missing \<open>deletedFor\<close> is the empty array), before the
  given instant if there is one, newest first, \<open>skip\<close> dropped and \<open>limit\<close> kept.
\<close>

definition fetch_page :: "message list \<Rightarrow> oid \<Rightarrow> oid \<Rightarrow> pagination \<Rightarrow> message list" where
  "fetch_page msgs commId userId pg =
     (let matching =
            filter (\<lambda>m. msg_community m = Some commId \<and> \<not> msg_isDeleted m \<and>
                         userId \<notin> set (deletedFor m) \<and>
                         (case before pg of None \<Rightarrow> True | Some b \<Rightarrow> msg_createdAt m < b))
              msgs;
          newest_first = sort_key (\<lambda>m. - msg_createdAt m) matching;
          skipped = drop ((page pg - 1) * limit pg) newest_first
      in if limit pg = 0 then skipped else take (limit pg) skipped)"

text \<open>\<open>ChatService.getCommunityMessages\<close>: the page as it was read, oldest first, and the
  state in which the messages of the page are marked as delivered.\<close>

definition getCommunityMessages ::
  "state \<Rightarrow> oid \<Rightarrow> oid \<Rightarrow> pagination \<Rightarrow> time \<Rightarrow> error + message list \<times> state" where
  "getCommunityMessages st commId userId pg now =
     (case db_communities st commId of
        None \<Rightarrow> Inl (ApiError ''Community not found'' 404)
      | Some comm \<Rightarrow>
          if \<not> list_ex (\<lambda>member. user member = userId) (members comm)
            then Inl (ApiError ''You must be a member to view messages'' 403)
          else if (int (page pg) - 1) * int (limit pg) < 0
            then Inl (MongoError ''Skip value must be non-negative'')
          else
            let messages = fetch_page (db_messages st) commId userId pg;
                messageIds = map msg_id messages
            in Inr (rev messages,
                    st\<lparr>db_messages :=
                         map (mark_delivered messageIds userId now) (db_messages st)\<rparr>))"

section \<open>Presence registry\<close>

text \<open>
  The call \<open>require('../../../config/socket').getIO()\<close> in \<open>notifyCommunities\<close>. The module
  \<open>config/socket.js\<close> exports the class (\<open>module.exports = SocketServer\<close>), and \<open>getIO\<close> is
  a method of the instances of that class, not a static one: the exported value has no
  property \<open>getIO\<close>, and calling it throws a \<open>TypeError\<close>.
\<close>

definition socket_export_getIO :: "error + unit" where
  "socket_export_getIO = Inl (TypeError ''require(...).getIO is not a function'')"

text \<open>\<open>PresenceHandler.updateUserStatus\<close>: \<open>findByIdAndUpdate\<close> changes the user if there
  is one.\<close>

definition updateUserStatus :: "state \<Rightarrow> oid \<Rightarrow> bool \<Rightarrow> time \<Rightarrow> state" where
  "updateUserStatus st userId online now =
     (case db_users st userId of
        None \<Rightarrow> st
      | Some u \<Rightarrow> st\<lparr>db_users := (db_users st)(userId \<mapsto> u\<lparr>isOnline := online, lastSeen := now\<rparr>)\<rparr>)"

text \<open>
  The \<open>forEach\<close> of \<open>notifyCommunities\<close> over the populated communities of the user. The
  callback first asks the export for the server, then reads the \<open>_id\<close> of the populated
  community (a reference to a missing community is populated as \<open>null\<close>), then emits. An
  exception leaves the loop; the \<open>catch\<close> of \<open>notifyCommunities\<close> only logs it.
\<close>

fun notify_each :: "state \<Rightarrow> oid \<Rightarrow> string \<Rightarrow> bool \<Rightarrow> time \<Rightarrow> oid list \<Rightarrow> state" where
  "notify_each st userId name online now [] = st"
| "notify_each st userId name online now (c # cs) =
     (case socket_export_getIO of
        Inl e \<Rightarrow> st
      | Inr io \<Rightarrow>
          (case db_communities st c of
             None \<Rightarrow> st
           | Some comm \<Rightarrow>
               notify_each
                 (st\<lparr>emitted := emitted st @
                       [\<lparr>up_room = ''community:'' @ c @ '':presence'', up_userId = userId,
                         up_username = name, up_isOnline = online, up_lastSeen = now\<rparr>]\<rparr>)
                 userId name online now cs))"

definition notifyCommunities :: "state \<Rightarrow> oid \<Rightarrow> bool \<Rightarrow> time \<Rightarrow> state" where
  "notifyCommunities st userId online now =
     (case db_users st userId of
        None \<Rightarrow> st
      | Some u \<Rightarrow> notify_each st userId (username u) online now (communities u))"

text \<open>
  \<open>PresenceHandler.handleConnect\<close>, \<open>handleDisconnect\<close> and \<open>isUserOnline\<close>. The registry is
  keyed by the value of the user id. \<open>updateUserStatus\<close> and \<open>notifyCommunities\<close> are
  started and not awaited; the model runs each to its end where it is started.
\<close>

definition handleConnect :: "state \<Rightarrow> string \<Rightarrow> oid \<Rightarrow> time \<Rightarrow> state" where
  "handleConnect st socketId userId now =
     (let registered =
            (if userSockets st userId = None
             then st\<lparr>userSockets := (userSockets st)(userId \<mapsto> {||})\<rparr> else st);
          sockets = finsert socketId (the (userSockets registered userId));
          st1 = registered\<lparr>userSockets := (userSockets registered)(userId \<mapsto> sockets)\<rparr>
      in if fcard sockets = 1
         then notifyCommunities (updateUserStatus st1 userId True now) userId True now
         else st1)"

definition handleDisconnect :: "state \<Rightarrow> string \<Rightarrow> oid \<Rightarrow> time \<Rightarrow> state" where
  "handleDisconnect st socketId userId now =
     (case userSockets st userId of
        None \<Rightarrow> st
      | Some current \<Rightarrow>
          let sockets = current |-| {|socketId|};
              st1 = st\<lparr>userSockets := (userSockets st)(userId \<mapsto> sockets)\<rparr>
          in if fcard sockets = 0
             then
               let st2 = notifyCommunities (updateUserStatus st1 userId False now)
                           userId False now
               in st2\<lparr>userSockets := (userSockets st2)(userId := None)\<rparr>
             else st1)"

definition isUserOnline :: "state \<Rightarrow> oid \<Rightarrow> bool" where
  "isUserOnline st userId \<longleftrightarrow>
     (case userSockets st userId of None \<Rightarrow> False | Some sockets \<Rightarrow> fcard sockets > 0)"

section \<open>Notions used in the statements and proofs\<close>

text \<open>The two vote sets of every stored post are disjoint.\<close>

definition disjoint_votes :: "state \<Rightarrow> bool" where
  "disjoint_votes st \<longleftrightarrow>
     (\<forall>postId p. db_posts st postId = Some p \<longrightarrow> set (upvotes p) \<inter> set (downvotes p) = {})"

text \<open>The \<open>aiAnalysis\<close> that \<open>createPost\<close> hands to \<open>Post.create\<close> for a content, and the one
  that \<open>sendMessage\<close> puts into the message data: present exactly when the moderation
  service was asked (a content of more than ten characters), whatever it answered.\<close>

definition stored_analysis :: "(string \<Rightarrow> ai_reply) \<Rightarrow> string \<Rightarrow> time \<Rightarrow> post_analysis option" where
  "stored_analysis ai text now =
     (if text \<noteq> [] \<and> length text > 10
      then Some \<lparr>pa_sentiment = sentiment (moderateContent ai text),
                 pa_toxicityScore = toxicity_score (moderateContent ai text),
                 pa_categories = (case categories (moderateContent ai text) of
                                    None \<Rightarrow> [] | Some cs \<Rightarrow> cs),
                 analyzedAt = now\<rparr>
      else None)"

definition message_analysis :: "(string \<Rightarrow> ai_reply) \<Rightarrow> string \<Rightarrow> msg_analysis option" where
  "message_analysis ai text =
     (if text \<noteq> [] \<and> length text > 10
      then Some \<lparr>ma_sentiment = sentiment (moderateContent ai text),
                 ma_toxicityScore = toxicity_score (moderateContent ai text)\<rparr>
      else None)"

text \<open>The checks of \<open>createPost\<close> on the community and the user, and those of
  \<open>sendMessage\<close> on the payload.\<close>

definition may_post :: "community \<Rightarrow> oid \<Rightarrow> bool" where
  "may_post comm userId \<longleftrightarrow>
     isActive comm \<and> list_ex (\<lambda>member. user member = userId) (members comm) \<and>
     (postPermissions comm = ''moderators'' \<longrightarrow>
        list_ex (\<lambda>moderator. user moderator = userId) (moderators comm) \<or> owner comm = userId)"

definition may_send :: "state \<Rightarrow> message_data \<Rightarrow> bool" where
  "may_send st data \<longleftrightarrow>
     truthy (md_communityId data) \<noteq> truthy (md_receiverId data) \<and>
     \<not> (truthy (md_replyTo data) \<and> Message_findById st (the (md_replyTo data)) = None)"

text \<open>The message data that \<open>sendMessage\<close> hands to \<open>Message.create\<close>.\<close>

definition new_message ::
  "message_data \<Rightarrow> oid \<Rightarrow> time \<Rightarrow> oid \<Rightarrow> oid option \<Rightarrow> oid option \<Rightarrow> string
     \<Rightarrow> msg_analysis option \<Rightarrow> message" where
  "new_message data userId now newId comm recv chan analysis =
     \<lparr>msg_id = newId, sender = userId, receiver = recv, msg_community = comm,
      channel = chan, msg_content = md_content data,
      msg_type = (case md_type data of None \<Rightarrow> ''text'' | Some t \<Rightarrow> t),
      media = (if truthy (md_media data) then md_media data else None),
      readBy = [],
      deliveredTo = [\<lparr>user = userId, stamp = now\<rparr>],
      msg_isDeleted = False, deletedFor = [],
      replyTo = (if truthy (md_replyTo data) then md_replyTo data else None),
      msg_aiAnalysis = analysis,
      msg_createdAt = now\<rparr>"

text \<open>The participant test of \<open>markAsRead\<close>.\<close>

definition is_participant :: "state \<Rightarrow> message \<Rightarrow> oid \<Rightarrow> bool" where
  "is_participant st msg userId \<longleftrightarrow>
     sender msg = userId \<or> (truthy (receiver msg) \<and> receiver msg = Some userId) \<or>
     (truthy (msg_community msg) \<and> isCommunityMember st (the (msg_community msg)) userId)"

text \<open>How many entries of a \<open>readBy\<close> or \<open>deliveredTo\<close> array belong to a user.\<close>

definition entries_of :: "oid \<Rightarrow> user_at list \<Rightarrow> nat" where
  "entries_of userId entries = length (filter (\<lambda>e. user e = userId) entries)"

section \<open>Concrete states\<close>

definition empty_state :: state where
  "empty_state = \<lparr>db_users = Map.empty, db_communities = Map.empty, db_posts = Map.empty,
     db_messages = [], redis = Map.empty, userSockets = Map.empty, emitted = []\<rparr>"

text \<open>A post that \<open>u1\<close> has downvoted, one that \<open>u1\<close> has upvoted, and one with a vote each
  way.\<close>

definition downvoted_post :: post where
  "downvoted_post = \<lparr>title = ''Hello'', content = ''First post'', author = ''u2'',
     community = ''c1'', upvotes = [], downvotes = [''u1''], score = 0, commentCount = 0,
     isDeleted = False, aiAnalysis = None, createdAt = 0\<rparr>"

definition upvoted_post :: post where
  "upvoted_post = \<lparr>title = ''Hello'', content = ''First post'', author = ''u2'',
     community = ''c1'', upvotes = [''u1''], downvotes = [], score = 0, commentCount = 0,
     isDeleted = False, aiAnalysis = None, createdAt = 0\<rparr>"

definition balanced_post :: post where
  "balanced_post = \<lparr>title = ''Hello'', content = ''First post'', author = ''u2'',
     community = ''c1'', upvotes = [''u1''], downvotes = [''u3''], score = 0, commentCount = 2,
     isDeleted = False, aiAnalysis = None, createdAt = 0\<rparr>"

definition downvoted_state :: state where
  "downvoted_state = empty_state\<lparr>db_posts := [''p1'' \<mapsto> downvoted_post]\<rparr>"


text \<open>A community \<open>c1\<close> with the members \<open>u1\<close> and \<open>u2\<close>, where every member may post.\<close>

definition forum_community :: community where
  "forum_community = \<lparr>owner = ''u9'', moderators = [],
     members = [\<lparr>user = ''u1'', stamp = 0\<rparr>, \<lparr>user = ''u2'', stamp = 0\<rparr>],
     postPermissions = ''all'', postCount = 0, isActive = True\<rparr>"

definition forum_state :: state where
  "forum_state = empty_state\<lparr>
     db_users := [''u1'' \<mapsto> \<lparr>username = ''ann'', isOnline = False, lastSeen = 0,
                               communities = [''c1'']\<rparr>,
                  ''u2'' \<mapsto> \<lparr>username = ''bob'', isOnline = False, lastSeen = 0,
                               communities = [''c1'']\<rparr>],
     db_communities := [''c1'' \<mapsto> forum_community]\<rparr>"

definition stale_listing :: listing where
  "stale_listing = \<lparr>listed = [], page_no = 1, page_limit = 20, total = 0\<rparr>"

definition fresh_listing :: listing where
  "fresh_listing = \<lparr>listed = [], page_no = 1, page_limit = 20, total = 1\<rparr>"

text \<open>The forum with the first page of its listing in the cache.\<close>

definition cached_state :: state where
  "cached_state = forum_state\<lparr>
     redis := [''community:c1:posts:{}:1:20:-score'' \<mapsto> (CachedListing stale_listing, 30000)]\<rparr>"

definition hello_post :: post_data where
  "hello_post = \<lparr>communityId = ''c1'', data_title = ''Hello'',
     data_content = ''A post of more than ten characters''\<rparr>"

definition hello_message :: message_data where
  "hello_message = \<lparr>md_content = ''A message of more than ten characters'',
     md_communityId = None, md_receiverId = Some ''u1'', md_type = None, md_media = None,
     md_replyTo = None\<rparr>"

text \<open>A moderation service that times out, one that answers that all is well, and one that
  flags every text.\<close>

definition timing_out :: "string \<Rightarrow> ai_reply" where
  "timing_out text = Failed ''timeout of 10000ms exceeded''"

definition approving :: "string \<Rightarrow> ai_reply" where
  "approving text = Replied \<lparr>toxicity_score = 0.1, is_safe = True, flagged = False,
     sentiment = Some ''neutral'', categories = Some [], error = None\<rparr>"


text \<open>The forum with one message of \<open>u1\<close> in the community channel.\<close>

definition channel_message :: message where
  "channel_message = \<lparr>msg_id = ''m1'', sender = ''u1'', receiver = None,
     msg_community = Some ''c1'', channel = ''community:c1'', msg_content = ''Good morning'',
     msg_type = ''text'', media = None, readBy = [],
     deliveredTo = [\<lparr>user = ''u1'', stamp = 1\<rparr>], msg_isDeleted = False, deletedFor = [],
     replyTo = None, msg_aiAnalysis = None, msg_createdAt = 1\<rparr>"

definition chat_state :: state where
  "chat_state = forum_state\<lparr>db_messages := [channel_message]\<rparr>"

definition first_page :: pagination where
  "first_page = \<lparr>page = 1, limit = 50, before = None\<rparr>"

section \<open>Basic facts about the save hook, the cache and the votes\<close>

declare show_nat.simps [simp del]

lemma pre_save_fields [simp]:
  "upvotes (pre_save now p) = upvotes p"
  "downvotes (pre_save now p) = downvotes p"
  "commentCount (pre_save now p) = commentCount p"
  "createdAt (pre_save now p) = createdAt p"
  "isDeleted (pre_save now p) = isDeleted p"
  "content (pre_save now p) = content p"
  "aiAnalysis (pre_save now p) = aiAnalysis p"
  "community (pre_save now p) = community p"
  by (simp_all add: pre_save_def Let_def)


lemma clearPattern_fields [simp]:
  "db_posts (clearPattern st pat) = db_posts st"
  "db_messages (clearPattern st pat) = db_messages st"
  "db_communities (clearPattern st pat) = db_communities st"
  "db_users (clearPattern st pat) = db_users st"
  by (simp_all add: clearPattern_def)

lemma clearPattern_redis:
  "redis (clearPattern st pat) key = (if pattern_matches pat key then None else redis st key)"
  by (simp add: clearPattern_def)

lemma upvotePost_votes:
  assumes "upvotePost st postId userId now = Inr (p', st')" and "db_posts st postId = Some p"
  shows "upvotes p' = (if userId \<in> set (upvotes p) then removeAll userId (upvotes p)
                       else upvotes p @ [userId])"
    and "downvotes p' = (if userId \<in> set (upvotes p) then downvotes p
                         else removeAll userId (downvotes p))"
    and "db_posts st' = (db_posts st)(postId \<mapsto> p')"
    and "commentCount p' = commentCount p \<and> createdAt p' = createdAt p"
  using assms
  by (auto simp: upvotePost_def save_post_def Let_def split: if_splits)

lemma downvotePost_votes:
  assumes "downvotePost st postId userId now = Inr (p', st')" and "db_posts st postId = Some p"
  shows "downvotes p' = (if userId \<in> set (downvotes p) then removeAll userId (downvotes p)
                         else downvotes p @ [userId])"
    and "upvotes p' = (if userId \<in> set (downvotes p) then upvotes p
                       else removeAll userId (upvotes p))"
    and "db_posts st' = (db_posts st)(postId \<mapsto> p')"
    and "commentCount p' = commentCount p \<and> createdAt p' = createdAt p"
  using assms
  by (auto simp: downvotePost_def save_post_def Let_def split: if_splits)

lemma upvotePost_Inr:
  "upvotePost st postId userId now = Inr (p', st') \<Longrightarrow>
   \<exists>p. db_posts st postId = Some p \<and> \<not> isDeleted p"
  by (auto simp: upvotePost_def split: option.splits if_splits)

lemma downvotePost_Inr:
  "downvotePost st postId userId now = Inr (p', st') \<Longrightarrow>
   \<exists>p. db_posts st postId = Some p \<and> \<not> isDeleted p"
  by (auto simp: downvotePost_def split: option.splits if_splits)

lemma upvotePost_succeeds:
  "db_posts st postId = Some p \<Longrightarrow> \<not> isDeleted p \<Longrightarrow>
   \<exists>p' st'. upvotePost st postId userId now = Inr (p', st') \<and> \<not> isDeleted p'"
  by (simp add: upvotePost_def save_post_def Let_def)

lemma downvotePost_succeeds:
  "db_posts st postId = Some p \<Longrightarrow> \<not> isDeleted p \<Longrightarrow>
   \<exists>p' st'. downvotePost st postId userId now = Inr (p', st') \<and> \<not> isDeleted p'"
  by (simp add: downvotePost_def save_post_def Let_def)



section \<open>The score\<close>




section \<open>Votes\<close>

lemma cast_vote_disjoint:
  assumes "disjoint_votes st" and "cast_vote st v = Inr (p', st')"
  shows "disjoint_votes st'"
proof (cases v)
  case (Upvote postId userId now)
  with assms(2) have up: "upvotePost st postId userId now = Inr (p', st')" by simp
  then obtain p where p: "db_posts st postId = Some p" using upvotePost_Inr by blast
  from assms(1) p have "set (upvotes p) \<inter> set (downvotes p) = {}"
    by (simp add: disjoint_votes_def)
  then have "set (upvotes p') \<inter> set (downvotes p') = {}"
    using upvotePost_votes(1,2)[OF up p] by auto
  then show ?thesis
    using assms(1) upvotePost_votes(3)[OF up p] by (auto simp: disjoint_votes_def)
next
  case (Downvote postId userId now)
  with assms(2) have down: "downvotePost st postId userId now = Inr (p', st')" by simp
  then obtain p where p: "db_posts st postId = Some p" using downvotePost_Inr by blast
  from assms(1) p have "set (upvotes p) \<inter> set (downvotes p) = {}"
    by (simp add: disjoint_votes_def)
  then have "set (upvotes p') \<inter> set (downvotes p') = {}"
    using downvotePost_votes(1,2)[OF down p] by auto
  then show ?thesis
    using assms(1) downvotePost_votes(3)[OF down p] by (auto simp: disjoint_votes_def)
qed

lemma cast_votes_disjoint: "disjoint_votes st \<Longrightarrow> disjoint_votes (cast_votes st vs)"
proof (induction vs arbitrary: st)
  case Nil
  then show ?case by simp
next
  case (Cons v vs)
  show ?case
  proof (cases "cast_vote st v")
    case (Inl e)
    with Cons show ?thesis by simp
  next
    case (Inr r)
    obtain p' st' where r: "r = (p', st')" by (cases r)
    with Inr Cons.prems have "disjoint_votes st'" using cast_vote_disjoint by blast
    with Inr r Cons.IH show ?thesis by simp
  qed
qed

text \<open>
  C2, as the code has it. Provided the two vote sets of every stored post are disjoint to
  begin with (those of a new post are empty), they are disjoint after any sequence of
  \<open>upvotePost\<close> and \<open>downvotePost\<close> requests, so no user is in both. Every successful vote
  toggles the membership of the caller in the voted set (added when absent, removed when
  present, never left as it was) and leaves the memberships of all other users alone; a vote
  that removes leaves the opposite set as it was, and a vote that adds takes the caller out
  of the opposite set, so that a caller who held the opposite vote changes two memberships.
\<close>

theorem votes_exclusive_and_toggling:
  assumes "\<forall>postId p. db_posts st postId = Some p \<longrightarrow> set (upvotes p) \<inter> set (downvotes p) = {}"
  shows "(\<forall>postId p. db_posts (cast_votes st vs) postId = Some p \<longrightarrow>
            set (upvotes p) \<inter> set (downvotes p) = {}) \<and>
         (\<forall>postId userId now p' st'. upvotePost st postId userId now = Inr (p', st') \<longrightarrow>
            (\<exists>p. db_posts st postId = Some p \<and> db_posts st' postId = Some p' \<and>
                 (userId \<in> set (upvotes p') \<longleftrightarrow> userId \<notin> set (upvotes p)) \<and>
                 set (upvotes p') - {userId} = set (upvotes p) - {userId} \<and>
                 set (downvotes p') =
                   (if userId \<in> set (upvotes p) then set (downvotes p)
                    else set (downvotes p) - {userId}))) \<and>
         (\<forall>postId userId now p' st'. downvotePost st postId userId now = Inr (p', st') \<longrightarrow>
            (\<exists>p. db_posts st postId = Some p \<and> db_posts st' postId = Some p' \<and>
                 (userId \<in> set (downvotes p') \<longleftrightarrow> userId \<notin> set (downvotes p)) \<and>
                 set (downvotes p') - {userId} = set (downvotes p) - {userId} \<and>
                 set (upvotes p') =
                   (if userId \<in> set (downvotes p) then set (upvotes p)
                    else set (upvotes p) - {userId})))"
proof (intro conjI allI impI)
  fix postId p
  assume "db_posts (cast_votes st vs) postId = Some p"
  moreover have "disjoint_votes (cast_votes st vs)"
    using assms by (intro cast_votes_disjoint) (simp add: disjoint_votes_def)
  ultimately show "set (upvotes p) \<inter> set (downvotes p) = {}"
    by (simp add: disjoint_votes_def)
next
  fix postId userId now p' st'
  assume up: "upvotePost st postId userId now = Inr (p', st')"
  then obtain p where p: "db_posts st postId = Some p" using upvotePost_Inr by blast
  show "\<exists>p. db_posts st postId = Some p \<and> db_posts st' postId = Some p' \<and>
                 (userId \<in> set (upvotes p') \<longleftrightarrow> userId \<notin> set (upvotes p)) \<and>
                 set (upvotes p') - {userId} = set (upvotes p) - {userId} \<and>
                 set (downvotes p') =
                   (if userId \<in> set (upvotes p) then set (downvotes p)
                    else set (downvotes p) - {userId})"
    using upvotePost_votes(1,2,3)[OF up p] p by auto
next
  fix postId userId now p' st'
  assume down: "downvotePost st postId userId now = Inr (p', st')"
  then obtain p where p: "db_posts st postId = Some p" using downvotePost_Inr by blast
  show "\<exists>p. db_posts st postId = Some p \<and> db_posts st' postId = Some p' \<and>
                 (userId \<in> set (downvotes p') \<longleftrightarrow> userId \<notin> set (downvotes p)) \<and>
                 set (downvotes p') - {userId} = set (downvotes p) - {userId} \<and>
                 set (upvotes p') =
                   (if userId \<in> set (downvotes p) then set (upvotes p)
                    else set (upvotes p) - {userId})"
    using downvotePost_votes(1,2,3)[OF down p] p by auto
qed

text \<open>On the post that \<open>u1\<close> has downvoted: after \<open>u1\<close> upvotes, \<open>u2\<close> downvotes and \<open>u2\<close>
  upvotes, whatever is stored has disjoint vote sets; and the upvote of \<open>u1\<close> alone puts
  \<open>u1\<close> among the upvotes and out of the downvotes.\<close>

theorem votes_exclusive_and_toggling_witness:
  "(\<exists>p. db_posts (cast_votes downvoted_state
             [Upvote ''p1'' ''u1'' 1, Downvote ''p1'' ''u2'' 2, Upvote ''p1'' ''u2'' 3]) ''p1''
          = Some p \<and> set (upvotes p) \<inter> set (downvotes p) = {}) \<and>
   (\<exists>p' st'. upvotePost downvoted_state ''p1'' ''u1'' 1 = Inr (p', st') \<and>
      db_posts st' ''p1'' = Some p' \<and> ''u1'' \<in> set (upvotes p') \<and> set (downvotes p') = {})"
proof -
  let ?vs = "[Upvote ''p1'' ''u1'' 1, Downvote ''p1'' ''u2'' 2, Upvote ''p1'' ''u2'' 3]"
  have start: "\<forall>postId p. db_posts downvoted_state postId = Some p \<longrightarrow>
      set (upvotes p) \<inter> set (downvotes p) = {}"
    by (simp add: downvoted_state_def empty_state_def downvoted_post_def)
  note inst = votes_exclusive_and_toggling[OF start, of ?vs]
  have stored: "db_posts downvoted_state ''p1'' = Some downvoted_post"
    by (simp add: downvoted_state_def empty_state_def)
  have live: "\<not> isDeleted downvoted_post" by (simp add: downvoted_post_def)
  obtain p1 s1 where c1: "upvotePost downvoted_state ''p1'' ''u1'' 1 = Inr (p1, s1)"
    and l1: "\<not> isDeleted p1"
    using upvotePost_succeeds[OF stored live] by blast
  have d1: "db_posts s1 ''p1'' = Some p1" using upvotePost_votes(3)[OF c1 stored] by simp
  obtain p2 s2 where c2: "downvotePost s1 ''p1'' ''u2'' 2 = Inr (p2, s2)"
    and l2: "\<not> isDeleted p2"
    using downvotePost_succeeds[OF d1 l1] by blast
  have d2: "db_posts s2 ''p1'' = Some p2" using downvotePost_votes(3)[OF c2 d1] by simp
  obtain p3 s3 where c3: "upvotePost s2 ''p1'' ''u2'' 3 = Inr (p3, s3)"
    using upvotePost_succeeds[OF d2 l2] by blast
  have d3: "db_posts s3 ''p1'' = Some p3" using upvotePost_votes(3)[OF c3 d2] by simp
  have run: "cast_votes downvoted_state ?vs = s3" by (simp add: c1 c2 c3)
  have "set (upvotes p3) \<inter> set (downvotes p3) = {}"
    using inst d3 run by metis
  moreover have "''u1'' \<in> set (upvotes p1) \<and> set (downvotes p1) = {}"
    using inst c1 stored by (fastforce simp: downvoted_post_def)
  ultimately show ?thesis using d3 run c1 d1 by auto
qed

text \<open>C2 as it is worded, "every vote call either adds or removes exactly one
  membership", fails where the caller holds the opposite vote: the post has no upvote and
  the downvote of \<open>u1\<close>; the upvote of \<open>u1\<close> adds one membership and removes another, and
  the post has one membership before and one after.\<close>

theorem upvote_after_downvote_changes_two_memberships:
  "upvotes downvoted_post = [] \<and> downvotes downvoted_post = [''u1''] \<and>
   db_posts downvoted_state ''p1'' = Some downvoted_post \<and>
   \<not> isl (upvotePost downvoted_state ''p1'' ''u1'' 1) \<and>
   upvotes (fst (projr (upvotePost downvoted_state ''p1'' ''u1'' 1))) = [''u1''] \<and>
   downvotes (fst (projr (upvotePost downvoted_state ''p1'' ''u1'' 1))) = [] \<and>
   length (upvotes (fst (projr (upvotePost downvoted_state ''p1'' ''u1'' 1)))) +
     length (downvotes (fst (projr (upvotePost downvoted_state ''p1'' ''u1'' 1)))) =
   length (upvotes downvoted_post) + length (downvotes downvoted_post)"
proof -
  have stored: "db_posts downvoted_state ''p1'' = Some downvoted_post"
    by (simp add: downvoted_state_def empty_state_def)
  have live: "\<not> isDeleted downvoted_post" by (simp add: downvoted_post_def)
  obtain p1 s1 where c1: "upvotePost downvoted_state ''p1'' ''u1'' 1 = Inr (p1, s1)"
    using upvotePost_succeeds[OF stored live] by blast
  show ?thesis
    using upvotePost_votes(1,2)[OF c1 stored] stored by (simp add: c1 downvoted_post_def)
qed




section \<open>Recomputing the score\<close>

text \<open>
  C10, as the code has it. The hook computes the score from the votes, the comment count,
  the creation instant and the clock, never from the score that is stored: run again at the
  same clock it changes nothing, and what it stores at a later clock does not depend on
  what an earlier run stored. When the post has as many upvotes as downvotes the clock plays
  no part either, and a second run at any time changes nothing.
\<close>

theorem score_recomputation:
  "pre_save now (pre_save now p) = pre_save now p \<and>
   pre_save t2 (pre_save t1 p) = pre_save t2 p \<and>
   (length (upvotes p) = length (downvotes p) \<longrightarrow> pre_save t2 (pre_save t1 p) = pre_save t1 p)"
  by (simp add: pre_save_def Let_def)

theorem score_recomputation_witness:
  "pre_save 10800000 (pre_save 7200000 balanced_post) = pre_save 7200000 balanced_post \<and>
   score (pre_save 7200000 balanced_post) = 1"
  using score_recomputation[of 7200000 balanced_post 10800000 7200000]
  by (simp add: balanced_post_def) (simp add: pre_save_def Let_def round_def)

text \<open>C10 as it is worded, for every post, fails when the clock moves and the votes do not
  cancel: the post with one upvote, created at instant 0 and saved after two hours and again
  after three, with nothing changed in between, gets the score 0 and then the score
  0.0001.\<close>

theorem score_changes_with_clock:
  "score (pre_save 7200000 upvoted_post) = 0 \<and>
   score (pre_save 10800000 (pre_save 7200000 upvoted_post)) = 1 / 10000 \<and>
   score (pre_save 10800000 (pre_save 7200000 upvoted_post)) \<noteq>
     score (pre_save 7200000 upvoted_post)"
  by (simp add: pre_save_def Let_def upvoted_post_def round_def)


section \<open>Presence\<close>

lemma notify_each_emits_nothing: "notify_each st userId name online now cs = st"
  by (cases cs) (simp_all add: socket_export_getIO_def)

lemma notifyCommunities_emits_nothing: "notifyCommunities st userId online now = st"
  by (simp add: notifyCommunities_def notify_each_emits_nothing split: option.splits)

lemma isUserOnline_iff:
  "isUserOnline st userId \<longleftrightarrow>
     (\<exists>sockets. userSockets st userId = Some sockets \<and> sockets \<noteq> {||})"
proof (cases "userSockets st userId")
  case None
  then show ?thesis by (simp add: isUserOnline_def)
next
  case (Some sockets)
  have "0 < fcard sockets \<longleftrightarrow> sockets \<noteq> {||}"
    using fcard_0_eq[of sockets] by arith
  with Some show ?thesis by (simp add: isUserOnline_def)
qed

lemma updateUserStatus_fields [simp]:
  "userSockets (updateUserStatus st userId online now) = userSockets st"
  "emitted (updateUserStatus st userId online now) = emitted st"
  by (simp_all add: updateUserStatus_def split: option.splits)

lemma updateUserStatus_db_users:
  "db_users (updateUserStatus (st\<lparr>userSockets := reg\<rparr>) userId online now) =
     db_users (updateUserStatus st userId online now)"
  by (simp add: updateUserStatus_def split: option.splits)

lemma handleConnect_fields:
  "userSockets (handleConnect st s userId now) =
     (userSockets st)(userId \<mapsto>
        finsert s (case userSockets st userId of None \<Rightarrow> {||} | Some cur \<Rightarrow> cur))"
  "db_users (handleConnect st s userId now) =
     (if fcard (finsert s (case userSockets st userId of None \<Rightarrow> {||} | Some cur \<Rightarrow> cur)) = 1
      then db_users (updateUserStatus st userId True now) else db_users st)"
  "emitted (handleConnect st s userId now) = emitted st"
  by (auto simp: handleConnect_def Let_def notifyCommunities_emits_nothing
      updateUserStatus_db_users split: option.splits)

lemma handleDisconnect_fields:
  "userSockets (handleDisconnect st s userId now) =
     (case userSockets st userId of
        None \<Rightarrow> userSockets st
      | Some cur \<Rightarrow>
          if cur |-| {|s|} = {||} then (userSockets st)(userId := None)
          else (userSockets st)(userId \<mapsto> cur |-| {|s|}))"
  "db_users (handleDisconnect st s userId now) =
     (case userSockets st userId of
        None \<Rightarrow> db_users st
      | Some cur \<Rightarrow>
          if cur |-| {|s|} = {||} then db_users (updateUserStatus st userId False now)
          else db_users st)"
  "emitted (handleDisconnect st s userId now) = emitted st"
  by (auto simp: handleDisconnect_def Let_def notifyCommunities_emits_nothing
      updateUserStatus_db_users fcard_0_eq split: option.splits)

text \<open>
  The registry on its own, for any state in which the user has no entry and any two
  different socket ids: the user is online after the first disconnect and offline after the
  second, the entry is gone, the status is written at the first connect and at the second
  disconnect only, and the list of emitted events is the one of the start.
\<close>

lemma presence_registry_scenario:
  assumes "userSockets st userId = None" and "s1 \<noteq> s2"
  shows "(let st1 = handleConnect st s1 userId t1;
              st2 = handleConnect st1 s2 userId t2;
              st3 = handleDisconnect st2 s1 userId t3;
              st4 = handleDisconnect st3 s2 userId t4
          in isUserOnline st3 userId \<and> \<not> isUserOnline st4 userId \<and>
             userSockets st4 userId = None \<and>
             db_users st1 = db_users (updateUserStatus st userId True t1) \<and>
             db_users st3 = db_users st1 \<and>
             db_users st4 = db_users (updateUserStatus st3 userId False t4) \<and>
             emitted st4 = emitted st)"
proof -
  define st1 where "st1 = handleConnect st s1 userId t1"
  define st2 where "st2 = handleConnect st1 s2 userId t2"
  define st3 where "st3 = handleDisconnect st2 s1 userId t3"
  define st4 where "st4 = handleDisconnect st3 s2 userId t4"
  have two: "finsert s2 {|s1|} |-| {|s1|} = {|s2|}"
    using assms(2) by auto
  have r1: "userSockets st1 userId = Some {|s1|}"
    by (simp add: st1_def handleConnect_fields assms(1))
  have r2: "userSockets st2 userId = Some {|s2, s1|}"
    by (simp add: st2_def handleConnect_fields r1)
  have r3: "userSockets st3 userId = Some {|s2|}"
    by (simp add: st3_def handleDisconnect_fields r2 two)
  have r4: "userSockets st4 userId = None"
    by (simp add: st4_def handleDisconnect_fields r3)
  have u1: "db_users st1 = db_users (updateUserStatus st userId True t1)"
    by (simp add: st1_def handleConnect_fields assms(1) fcard_finsert_if)
  have u2: "db_users st2 = db_users st1"
    using assms(2) by (simp add: st2_def handleConnect_fields r1 fcard_finsert_if)
  have u3: "db_users st3 = db_users st2"
    by (simp add: st3_def handleDisconnect_fields r2 two)
  have u4: "db_users st4 = db_users (updateUserStatus st3 userId False t4)"
    by (simp add: st4_def handleDisconnect_fields r3)
  have e: "emitted st4 = emitted st"
    by (simp add: st4_def st3_def st2_def st1_def handleConnect_fields handleDisconnect_fields)
  have "isUserOnline st3 userId \<and> \<not> isUserOnline st4 userId"
    by (simp add: isUserOnline_iff r3 r4)
  with r4 u1 u2 u3 u4 e show ?thesis
    unfolding Let_def st1_def st2_def st3_def st4_def by simp
qed

text \<open>
  C3, on the code. User \<open>u1\<close>, a member of community \<open>c1\<close>, connects the sockets \<open>s1\<close> and
  \<open>s2\<close> (at the instants 1 and 2) and disconnects them one at a time (at 3 and 4).
  \<open>isUserOnline\<close> is true exactly when the user has a non-empty entry (in every state, by
  \<open>isUserOnline_iff\<close>); the user is online
  after the first disconnect and offline after the second; the empty entry is dropped; the
  stored status is online with \<open>lastSeen = 1\<close> until the second disconnect writes offline
  with \<open>lastSeen = 4\<close>. But no \<open>user_presence\<close> event is emitted, neither for the online
  nor for the offline transition: \<open>notifyCommunities\<close> runs once for each and fails for
  the first community, where it asks the export of \<open>config/socket.js\<close> for \<open>getIO\<close>.
\<close>

theorem presence_two_connections:
  "(let st1 = handleConnect forum_state ''s1'' ''u1'' 1;
        st2 = handleConnect st1 ''s2'' ''u1'' 2;
        st3 = handleDisconnect st2 ''s1'' ''u1'' 3;
        st4 = handleDisconnect st3 ''s2'' ''u1'' 4
    in isUserOnline st2 ''u1'' \<and> isUserOnline st3 ''u1'' \<and> \<not> isUserOnline st4 ''u1'' \<and>
       userSockets st3 ''u1'' = Some {|''s2''|} \<and> userSockets st4 ''u1'' = None \<and>
       map_option isOnline (db_users st3 ''u1'') = Some True \<and>
       map_option lastSeen (db_users st3 ''u1'') = Some 1 \<and>
       map_option isOnline (db_users st4 ''u1'') = Some False \<and>
       map_option lastSeen (db_users st4 ''u1'') = Some 4 \<and>
       map_option communities (db_users st4 ''u1'') = Some [''c1''] \<and>
       db_communities st4 ''c1'' \<noteq> None \<and>
       emitted st1 = [] \<and> emitted st4 = [])"
  by (auto simp: handleConnect_def handleDisconnect_def isUserOnline_def updateUserStatus_def
      notifyCommunities_def socket_export_getIO_def forum_state_def forum_community_def empty_state_def
      Let_def fcard_finsert_if)


section \<open>Creating posts and sending messages\<close>

lemma case_sum_same: "(case s of Inl a \<Rightarrow> z | Inr b \<Rightarrow> z) = z"
  by (cases s) simp_all

lemma Post_create_analysis:
  "Post_create st ttl cnt auth comm a now newId = Inr (p0, s0) \<Longrightarrow>
   \<exists>p s. Post_create st ttl cnt auth comm b now newId = Inr (p, s) \<and> db_posts s newId = Some p \<and>
          content p = cnt \<and> aiAnalysis p = b \<and> redis s = redis st"
  by (auto simp: Post_create_def save_post_def Let_def split: if_splits)

lemma Post_create_succeeds:
  assumes "trim ttl \<noteq> []" and "length (trim ttl) \<le> 300" and "cnt \<noteq> []"
    and "length cnt \<le> 10000" and "db_posts st newId = None"
  shows "\<exists>p s. Post_create st ttl cnt auth comm a now newId = Inr (p, s)"
  using assms by (simp add: Post_create_def save_post_def Let_def)

lemma createPost_no_community:
  "db_communities st (communityId data) = None \<Longrightarrow>
   createPost st data userId ai now newId = Inl (ApiError ''Community not found'' 404)"
  by (simp add: createPost_def)

lemma createPost_refused:
  "db_communities st (communityId data) = Some comm \<Longrightarrow> \<not> may_post comm userId \<Longrightarrow>
   isl (createPost st data userId ai now newId)"
  by (simp add: createPost_def may_post_def)

lemma createPost_admitted:
  assumes "db_communities st (communityId data) = Some comm" and "may_post comm userId"
  shows "createPost st data userId ai now newId =
     (case Post_create st (data_title data) (data_content data) userId (communityId data)
             (stored_analysis ai (data_content data) now) now newId of
        Inl e \<Rightarrow> Inl e
      | Inr (post, st1) \<Rightarrow>
          Inr (post,
            clearPattern
              (clearPattern
                 (st1\<lparr>db_communities :=
                    (db_communities st1)(communityId data \<mapsto>
                       comm\<lparr>postCount := postCount comm + 1\<rparr>)\<rparr>)
                 (''community:'' @ communityId data @ '':posts:*''))
              (''user:'' @ userId @ '':posts'')))"
proof -
  have gate: "isActive comm" "list_ex (\<lambda>member. user member = userId) (members comm)"
    "\<not> (postPermissions comm = ''moderators'' \<and>
        \<not> (list_ex (\<lambda>moderator. user moderator = userId) (moderators comm) \<or>
           owner comm = userId))"
    using assms(2) by (auto simp: may_post_def)
  show ?thesis
    unfolding createPost_def stored_analysis_def Let_def
    by (simp only: assms(1) gate option.case if_False not_True_eq_False simp_thms)
       (simp add: case_sum_same)
qed

lemma createPost_InrE:
  assumes "createPost st data userId ai now newId = Inr (p, s)"
  obtains comm s1 where "db_communities st (communityId data) = Some comm"
    and "may_post comm userId"
    and "Post_create st (data_title data) (data_content data) userId (communityId data)
           (stored_analysis ai (data_content data) now) now newId = Inr (p, s1)"
    and "s = clearPattern
              (clearPattern
                 (s1\<lparr>db_communities :=
                    (db_communities s1)(communityId data \<mapsto>
                       comm\<lparr>postCount := postCount comm + 1\<rparr>)\<rparr>)
                 (''community:'' @ communityId data @ '':posts:*''))
              (''user:'' @ userId @ '':posts'')"
proof -
  obtain comm where c: "db_communities st (communityId data) = Some comm"
    using assms createPost_no_community by (cases "db_communities st (communityId data)") auto
  have m: "may_post comm userId"
  proof (rule ccontr)
    assume "\<not> may_post comm userId"
    from createPost_refused[OF c this, where ai = ai and now = now and newId = newId] assms
    show False by simp
  qed
  show thesis
    using assms that[OF c m] unfolding createPost_admitted[OF c m]
    by (auto split: sum.splits)
qed

lemma createPost_ai:
  assumes "createPost st data userId ai0 now newId = Inr (p0, s0)"
  shows "\<exists>p s. createPost st data userId ai now newId = Inr (p, s) \<and> db_posts s newId = Some p \<and>
           content p = data_content data \<and>
           aiAnalysis p = stored_analysis ai (data_content data) now"
proof -
  from assms obtain comm s1 where c: "db_communities st (communityId data) = Some comm"
    and m: "may_post comm userId"
    and "Post_create st (data_title data) (data_content data) userId (communityId data)
           (stored_analysis ai0 (data_content data) now) now newId = Inr (p0, s1)"
    by (rule createPost_InrE)
  from Post_create_analysis[OF this(3), of "stored_analysis ai (data_content data) now"]
  obtain p s where "Post_create st (data_title data) (data_content data) userId
      (communityId data) (stored_analysis ai (data_content data) now) now newId = Inr (p, s)"
    and "db_posts s newId = Some p" and "content p = data_content data"
    and "aiAnalysis p = stored_analysis ai (data_content data) now"
    by blast
  then show ?thesis
    by (simp add: createPost_admitted[OF c m])
qed

lemma createPost_succeeds:
  assumes "db_communities st (communityId data) = Some comm" and "may_post comm userId"
    and "trim (data_title data) \<noteq> []" and "length (trim (data_title data)) \<le> 300"
    and "data_content data \<noteq> []" and "length (data_content data) \<le> 10000"
    and "db_posts st newId = None"
  shows "\<exists>p s. createPost st data userId ai now newId = Inr (p, s)"
proof -
  obtain p s where "Post_create st (data_title data) (data_content data) userId
      (communityId data) (stored_analysis ai (data_content data) now) now newId = Inr (p, s)"
    using Post_create_succeeds[OF assms(3-7)] by blast
  then show ?thesis
    by (simp add: createPost_admitted[OF assms(1,2)])
qed


lemma createPost_redis:
  assumes "createPost st data userId ai now newId = Inr (p, st')"
  shows "redis st' key =
           (if pattern_matches (''user:'' @ userId @ '':posts'') key \<or>
               pattern_matches (''community:'' @ communityId data @ '':posts:*'') key
            then None else redis st key)"
proof -
  from assms obtain comm s1 where
    c: "Post_create st (data_title data) (data_content data) userId (communityId data)
           (stored_analysis ai (data_content data) now) now newId = Inr (p, s1)"
    and s: "st' = clearPattern
              (clearPattern
                 (s1\<lparr>db_communities :=
                    (db_communities s1)(communityId data \<mapsto>
                       comm\<lparr>postCount := postCount comm + 1\<rparr>)\<rparr>)
                 (''community:'' @ communityId data @ '':posts:*''))
              (''user:'' @ userId @ '':posts'')"
    by (rule createPost_InrE)
  have "redis s1 = redis st"
    using c by (auto simp: Post_create_def save_post_def Let_def split: if_splits)
  then show ?thesis
    by (simp add: s clearPattern_redis)
qed

text \<open>A new post has no votes, so creating posts keeps the vote sets of all stored posts
  disjoint.\<close>

lemma createPost_disjoint_votes:
  assumes "disjoint_votes st" and "createPost st data userId ai now newId = Inr (p, st')"
  shows "disjoint_votes st' \<and> upvotes p = [] \<and> downvotes p = []"
proof -
  from assms(2) obtain comm s1 where
    c: "Post_create st (data_title data) (data_content data) userId (communityId data)
           (stored_analysis ai (data_content data) now) now newId = Inr (p, s1)"
    and s: "st' = clearPattern
              (clearPattern
                 (s1\<lparr>db_communities :=
                    (db_communities s1)(communityId data \<mapsto>
                       comm\<lparr>postCount := postCount comm + 1\<rparr>)\<rparr>)
                 (''community:'' @ communityId data @ '':posts:*''))
              (''user:'' @ userId @ '':posts'')"
    by (rule createPost_InrE)
  from c have "db_posts s1 = (db_posts st)(newId \<mapsto> p) \<and> upvotes p = [] \<and> downvotes p = []"
    by (auto simp: Post_create_def save_post_def Let_def split: if_splits)
  with assms(1) show ?thesis
    by (auto simp: s disjoint_votes_def)
qed

lemma listing_key_matches:
  "pattern_matches (''community:'' @ commId @ '':posts:*'')
     (''community:'' @ commId @ '':posts:'' @ rest)"
proof -
  have "''community:'' @ commId @ '':posts:*'' = (''community:'' @ commId @ '':posts:'') @ ''*''"
    by simp
  then show ?thesis
    unfolding pattern_matches_def by (simp only: butlast_snoc last_snoc length_append) simp
qed

lemma sendMessage_admitted:
  assumes "may_send st data" and "set_recipient st data userId = Inr (comm, recv, chan)"
  shows "sendMessage st data userId ai now newId =
           Message_create st
             (new_message data userId now newId comm recv chan
                (message_analysis ai (md_content data)))"
proof -
  have gate: "\<not> (\<not> truthy (md_communityId data) \<and> \<not> truthy (md_receiverId data))"
    "\<not> (truthy (md_communityId data) \<and> truthy (md_receiverId data))"
    "\<not> (truthy (md_replyTo data) \<and> Message_findById st (the (md_replyTo data)) = None)"
    using assms(1) by (auto simp: may_send_def)
  show ?thesis
    unfolding sendMessage_def Let_def
    by (simp only: gate assms(2) if_False sum.case prod.case)
       (simp add: new_message_def message_analysis_def case_sum_same)
qed

lemma sendMessage_InrE:
  assumes "sendMessage st data userId ai now newId = Inr (m, s)"
  obtains comm recv chan where "may_send st data"
    and "set_recipient st data userId = Inr (comm, recv, chan)"
    and "Message_create st
             (new_message data userId now newId comm recv chan
                (message_analysis ai (md_content data))) = Inr (m, s)"
proof -
  have a: "truthy (md_communityId data) \<noteq> truthy (md_receiverId data)"
    using assms by (auto simp: sendMessage_def split: if_splits)
  then obtain comm recv chan where r: "set_recipient st data userId = Inr (comm, recv, chan)"
    using assms by (cases "set_recipient st data userId") (auto simp: sendMessage_def Let_def)
  have "\<not> (truthy (md_replyTo data) \<and> Message_findById st (the (md_replyTo data)) = None)"
  proof
    assume "truthy (md_replyTo data) \<and> Message_findById st (the (md_replyTo data)) = None"
    with a r have "isl (sendMessage st data userId ai now newId)"
      by (auto simp: sendMessage_def Let_def)
    with assms show False by simp
  qed
  with a have ms: "may_send st data" by (simp add: may_send_def)
  show thesis
    using that[OF ms r] assms by (simp add: sendMessage_admitted[OF ms r])
qed




lemma sendMessage_direct:
  assumes "sendMessage st data userId ai now newId = Inr (m, s)"
    and "\<not> truthy (md_communityId data)"
  shows "\<exists>b. md_receiverId data = Some b \<and> receiver m = Some b \<and> sender m = userId \<and>
           channel m = getDirectMessageChannel userId b \<and> m \<in> set (db_messages s)"
proof -
  from assms(1) obtain comm recv chan where ms: "may_send st data"
    and r: "set_recipient st data userId = Inr (comm, recv, chan)"
    and c: "Message_create st
             (new_message data userId now newId comm recv chan
                (message_analysis ai (md_content data))) = Inr (m, s)"
    by (rule sendMessage_InrE)
  from ms assms(2) obtain b where b: "md_receiverId data = Some b"
    by (auto simp: may_send_def truthy_def)
  from r assms(2) b have "recv = Some b" "chan = getDirectMessageChannel userId b"
    by (auto simp: set_recipient_def split: option.splits)
  with c b show ?thesis
    by (auto simp: Message_create_def new_message_def split: if_splits)
qed

lemma getDirectMessageChannel_min_max:
  "getDirectMessageChannel a b = ''dm:'' @ min a b @ '':'' @ max a b"
  by (auto simp: getDirectMessageChannel_def min_def max_def)

text \<open>What the examples need: the forum admits the post of \<open>u1\<close> and the direct message
  of \<open>u2\<close> to \<open>u1\<close>, whatever the moderation service does.\<close>

lemma trim_Hello: "trim ''Hello'' = ''Hello''"
  by (simp add: trim_def is_space_def)

lemma forum_community_stored: "db_communities forum_state ''c1'' = Some forum_community"
  by (simp add: forum_state_def empty_state_def)

lemma forum_may_post: "may_post forum_community ''u1''"
  by (simp add: may_post_def forum_community_def)

lemma forum_post_created:
  assumes "db_posts st ''p1'' = None" and "db_communities st ''c1'' = Some forum_community"
  shows "\<exists>p s. createPost st hello_post ''u1'' ai 5 ''p1'' = Inr (p, s)"
  using createPost_succeeds[of st hello_post forum_community "''u1''" "''p1''" ai 5] assms
  by (simp add: hello_post_def trim_Hello forum_may_post)

lemma forum_message_sent:
  "sendMessage forum_state hello_message ''u2'' ai 7 ''m9'' =
     Inr (new_message hello_message ''u2'' 7 ''m9'' None (Some ''u1'') ''dm:u1:u2''
            (message_analysis ai (md_content hello_message)),
          forum_state\<lparr>db_messages :=
            [new_message hello_message ''u2'' 7 ''m9'' None (Some ''u1'') ''dm:u1:u2''
               (message_analysis ai (md_content hello_message))]\<rparr>)"
proof -
  have ms: "may_send forum_state hello_message"
    by (simp add: may_send_def hello_message_def truthy_def)
  have r: "set_recipient forum_state hello_message ''u2'' = Inr (None, Some ''u1'', ''dm:u1:u2'')"
    by (simp add: set_recipient_def hello_message_def truthy_def forum_state_def
        empty_state_def getDirectMessageChannel_def)
  show ?thesis
    unfolding sendMessage_admitted[OF ms r]
    by (simp add: Message_create_def Message_findById_def new_message_def hello_message_def
        forum_state_def empty_state_def)
qed


section \<open>Moderation\<close>

lemma stored_analysis_timing_out:
  "stored_analysis timing_out (data_content hello_post) 5 =
     Some \<lparr>pa_sentiment = None, pa_toxicityScore = 0, pa_categories = [], analyzedAt = 5\<rparr>"
  by (simp add: stored_analysis_def moderateContent_def timing_out_def hello_post_def)

text \<open>
  C5, on the code. The moderation service times out while \<open>u1\<close> creates a post of more
  than ten characters in the forum. The post is created and stored, and its \<open>aiAnalysis\<close>
  is present: \<open>moderateContent\<close> has swallowed the failure and returned the safe default, an
  object, so \<open>createPost\<close> records an analysis with toxicity 0, no sentiment, no categories
  and the date of the request.
\<close>

theorem moderation_outage_stores_analysis:
  "\<exists>p s. createPost forum_state hello_post ''u1'' timing_out 5 ''p1'' = Inr (p, s) \<and>
     db_posts s ''p1'' = Some p \<and>
     aiAnalysis p =
       Some \<lparr>pa_sentiment = None, pa_toxicityScore = 0, pa_categories = [], analyzedAt = 5\<rparr>"
proof -
  have "db_posts forum_state ''p1'' = None"
    by (simp add: forum_state_def empty_state_def)
  from forum_post_created[OF this forum_community_stored, of approving]
  obtain p0 s0 where "createPost forum_state hello_post ''u1'' approving 5 ''p1'' = Inr (p0, s0)"
    by blast
  from createPost_ai[OF this, of timing_out] show ?thesis
    by (auto simp: stored_analysis_timing_out)
qed



section \<open>Direct message channels\<close>

text \<open>
  C8. The channel of two users is \<open>dm:\<close>, the smaller of the two id strings, a colon and
  the larger one, in the lexicographic order of strings; it is therefore the same for both
  orders of the arguments. A direct message (no community id) that \<open>sendMessage\<close> stores
  from \<open>a\<close> to the receiver \<open>b\<close> carries that channel.
\<close>

theorem direct_message_channel:
  "getDirectMessageChannel a b = getDirectMessageChannel b a \<and>
   getDirectMessageChannel a b = ''dm:'' @ min a b @ '':'' @ max a b \<and>
   (sendMessage st data a ai now newId = Inr (m, s) \<longrightarrow> \<not> truthy (md_communityId data) \<longrightarrow>
      md_receiverId data = Some b \<longrightarrow>
      m \<in> set (db_messages s) \<and> sender m = a \<and> receiver m = Some b \<and>
      channel m = ''dm:'' @ min a b @ '':'' @ max a b)"
proof (intro conjI impI)
  show "getDirectMessageChannel a b = getDirectMessageChannel b a"
    by (simp add: getDirectMessageChannel_min_max min.commute max.commute)
  show "getDirectMessageChannel a b = ''dm:'' @ min a b @ '':'' @ max a b"
    by (rule getDirectMessageChannel_min_max)
next
  assume sent: "sendMessage st data a ai now newId = Inr (m, s)"
    and direct: "\<not> truthy (md_communityId data)" and to: "md_receiverId data = Some b"
  from sendMessage_direct[OF sent direct] to
  have *: "receiver m = Some b \<and> sender m = a \<and> channel m = getDirectMessageChannel a b \<and>
      m \<in> set (db_messages s)"
    by auto
  then show "m \<in> set (db_messages s)" "sender m = a" "receiver m = Some b"
    "channel m = ''dm:'' @ min a b @ '':'' @ max a b"
    by (simp_all add: getDirectMessageChannel_min_max)
qed

text \<open>The message of \<open>u2\<close> to \<open>u1\<close> is stored in the channel \<open>dm:u1:u2\<close>.\<close>

theorem direct_message_channel_witness:
  "\<exists>m s. sendMessage forum_state hello_message ''u2'' approving 7 ''m9'' = Inr (m, s) \<and>
     m \<in> set (db_messages s) \<and> sender m = ''u2'' \<and> receiver m = Some ''u1'' \<and>
     channel m = ''dm:u1:u2'' \<and>
     getDirectMessageChannel ''u1'' ''u2'' = ''dm:u1:u2'' \<and>
     getDirectMessageChannel ''u2'' ''u1'' = ''dm:u1:u2''"
proof -
  obtain m s where
    sent: "sendMessage forum_state hello_message ''u2'' approving 7 ''m9'' = Inr (m, s)"
    using forum_message_sent by blast
  have d: "\<not> truthy (md_communityId hello_message)" "md_receiverId hello_message = Some ''u1''"
    by (simp_all add: hello_message_def truthy_def)
  from direct_message_channel[of "''u2''" "''u1''" forum_state hello_message approving 7 "''m9''"
      m s] sent d
  have "m \<in> set (db_messages s) \<and> sender m = ''u2'' \<and> receiver m = Some ''u1'' \<and>
     channel m = ''dm:u1:u2'' \<and> getDirectMessageChannel ''u2'' ''u1'' = ''dm:u1:u2'' \<and>
     getDirectMessageChannel ''u1'' ''u2'' = ''dm:u1:u2''"
    by auto
  with sent show ?thesis by blast
qed

section \<open>Cache invalidation\<close>

text \<open>
  C9, with the cache service modelled from the specification. After a successful
  \<open>createPost\<close> in a community, the cache holds nothing under any key that the pattern
  \<open>community:<id>:posts:*\<close> matches, in particular under no key that starts with
  \<open>community:<id>:posts:\<close>; so every listing read of that community, for any filters, page,
  limit and sort, misses the cache and returns what the database gives.
\<close>

theorem createPost_invalidates_listings:
  assumes "createPost st data userId ai now newId = Inr (p, st')"
  shows "(\<forall>key. pattern_matches (''community:'' @ communityId data @ '':posts:*'') key \<longrightarrow>
            redis st' key = None) \<and>
         (\<forall>rest t. redis_get st' (''community:'' @ communityId data @ '':posts:'' @ rest) t = None) \<and>
         (\<forall>filters pg lim sorting t fetched.
            fst (getPostsByCommunity st' (communityId data) filters pg lim sorting t fetched) =
              CachedListing fetched)"
proof -
  have gone: "redis st' key = None"
    if "pattern_matches (''community:'' @ communityId data @ '':posts:*'') key" for key
    using createPost_redis[OF assms, of key] that by simp
  have miss: "redis_get st' (''community:'' @ communityId data @ '':posts:'' @ rest) t = None"
    for rest t
    using gone[OF listing_key_matches] by (simp add: redis_get_def)
  have "fst (getPostsByCommunity st' (communityId data) filters pg lim sorting t fetched) =
      CachedListing fetched" for filters pg lim sorting t fetched
    using miss[of "filters @ '':'' @ show_nat pg @ '':'' @ show_nat lim @ '':'' @ sorting" t]
    by (simp add: getPostsByCommunity_def Let_def)
  with gone miss show ?thesis by blast
qed

text \<open>The first page of the forum's listing is cached until instant 30000. A read at
  instant 6 returns the cached listing; after \<open>u1\<close> has created a post at instant 5 the same
  read returns the listing that the database gives.\<close>

theorem createPost_invalidates_listings_witness:
  "fst (getPostsByCommunity cached_state ''c1'' ''{}'' 1 20 ''-score'' 6 fresh_listing) =
     CachedListing stale_listing \<and>
   (\<exists>p st'. createPost cached_state hello_post ''u1'' approving 5 ''p1'' = Inr (p, st') \<and>
      redis st' ''community:c1:posts:{}:1:20:-score'' = None \<and>
      fst (getPostsByCommunity st' ''c1'' ''{}'' 1 20 ''-score'' 6 fresh_listing) =
        CachedListing fresh_listing)"
proof -
  have hit: "fst (getPostsByCommunity cached_state ''c1'' ''{}'' 1 20 ''-score'' 6 fresh_listing)
      = CachedListing stale_listing"
    by (simp add: getPostsByCommunity_def redis_get_def cached_state_def show_nat.simps Let_def)
  have "db_posts cached_state ''p1'' = None"
    "db_communities cached_state ''c1'' = Some forum_community"
    by (simp_all add: cached_state_def forum_state_def empty_state_def)
  from forum_post_created[OF this, of approving]
  obtain p st' where
    made: "createPost cached_state hello_post ''u1'' approving 5 ''p1'' = Inr (p, st')"
    by blast
  have c: "communityId hello_post = ''c1''" by (simp add: hello_post_def)
  have m: "pattern_matches ''community:c1:posts:*'' ''community:c1:posts:{}:1:20:-score''"
    by (simp add: pattern_matches_def)
  from createPost_invalidates_listings[OF made] c m
  have "redis st' ''community:c1:posts:{}:1:20:-score'' = None \<and>
      fst (getPostsByCommunity st' ''c1'' ''{}'' 1 20 ''-score'' 6 fresh_listing) =
        CachedListing fresh_listing"
    by simp
  with hit made show ?thesis by blast
qed


section \<open>Delivery and read receipts\<close>

lemma entries_of_0: "entries_of u es = 0 \<longleftrightarrow> u \<notin> set (map user es)"
  by (induction es) (auto simp: entries_of_def)

lemma entries_of_append [simp]: "entries_of u (es @ fs) = entries_of u es + entries_of u fs"
  by (simp add: entries_of_def)

lemma entries_of_single [simp]:
  "entries_of u [\<lparr>user = v, stamp = t\<rparr>] = (if v = u then 1 else 0)"
  by (simp add: entries_of_def)

lemma list_ex_user: "list_ex (\<lambda>r. user r = u) xs \<longleftrightarrow> u \<in> set (map user xs)"
  by (induction xs) auto

lemma mark_delivered_fields [simp]:
  "msg_id (mark_delivered ids u t m) = msg_id m"
  "msg_community (mark_delivered ids u t m) = msg_community m"
  "msg_isDeleted (mark_delivered ids u t m) = msg_isDeleted m"
  "deletedFor (mark_delivered ids u t m) = deletedFor m"
  "msg_createdAt (mark_delivered ids u t m) = msg_createdAt m"
  "readBy (mark_delivered ids u t m) = readBy m"
  by (simp_all add: mark_delivered_def)

lemma mark_delivered_entries:
  "entries_of u (deliveredTo (mark_delivered ids u t m)) =
     (if msg_id m \<in> set ids \<and> entries_of u (deliveredTo m) = 0 then 1
      else entries_of u (deliveredTo m))"
  by (auto simp: mark_delivered_def entries_of_0)

lemma mark_delivered_twice:
  "mark_delivered ids u t2 (mark_delivered ids u t1 m) = mark_delivered ids u t1 m"
  by (simp add: mark_delivered_def)

lemma insort_key_map_commute:
  assumes "\<And>x. k (f x) = k x"
  shows "insort_key k (f x) (map f ys) = map f (insort_key k x ys)"
  by (induction ys) (simp_all add: assms)

lemma sort_key_map_commute:
  assumes "\<And>x. k (f x) = k x"
  shows "sort_key k (map f xs) = map f (sort_key k xs)"
  by (induction xs) (simp_all add: insort_key_map_commute[where k = k and f = f, OF assms])

lemma filter_map_commute:
  assumes "\<And>x. P (f x) = P x"
  shows "filter P (map f xs) = map f (filter P xs)"
  by (induction xs) (simp_all add: assms)

text \<open>Marking messages as delivered moves no message into or out of a page.\<close>

lemma fetch_page_mark_delivered:
  "fetch_page (map (mark_delivered ids u t) msgs) commId userId pg =
     map (mark_delivered ids u t) (fetch_page msgs commId userId pg)"
proof -
  let ?P = "\<lambda>m. msg_community m = Some commId \<and> \<not> msg_isDeleted m \<and>
                userId \<notin> set (deletedFor m) \<and>
                (case before pg of None \<Rightarrow> True | Some b \<Rightarrow> msg_createdAt m < b)"
  have srt: "sort_key (\<lambda>m. - msg_createdAt m) (map (mark_delivered ids u t) xs) =
        map (mark_delivered ids u t) (sort_key (\<lambda>m. - msg_createdAt m) xs)" for xs
    by (rule sort_key_map_commute) simp
  have flt: "filter ?P (map (mark_delivered ids u t) msgs) =
        map (mark_delivered ids u t) (filter ?P msgs)"
    by (rule filter_map_commute) (simp split: option.splits)
  show ?thesis
    unfolding fetch_page_def Let_def flt srt by (simp add: drop_map take_map)
qed

lemma getCommunityMessages_Inr:
  assumes "getCommunityMessages st commId userId pg now = Inr (msgs, st')"
  shows "msgs = rev (fetch_page (db_messages st) commId userId pg)"
    and "st' = st\<lparr>db_messages :=
               map (mark_delivered (map msg_id (fetch_page (db_messages st) commId userId pg))
                      userId now) (db_messages st)\<rparr>"
  using assms
  by (auto simp: getCommunityMessages_def Let_def split: option.splits if_splits)

lemma getCommunityMessages_succeeds:
  assumes "db_communities st commId = Some comm"
    and "list_ex (\<lambda>member. user member = userId) (members comm)" and "1 \<le> page pg"
  shows "getCommunityMessages st commId userId pg now =
     Inr (rev (fetch_page (db_messages st) commId userId pg),
          st\<lparr>db_messages :=
               map (mark_delivered (map msg_id (fetch_page (db_messages st) commId userId pg))
                      userId now) (db_messages st)\<rparr>)"
proof -
  have "\<not> (int (page pg) - 1) * int (limit pg) < 0"
    using assms(3) by (simp add: mult_less_0_iff)
  then show ?thesis
    using assms(1,2) by (simp add: getCommunityMessages_def Let_def)
qed

lemma getCommunityMessages_again:
  assumes "getCommunityMessages st commId userId pg t1 = Inr (msgs, st1)"
  shows "\<exists>msgs2. getCommunityMessages st1 commId userId pg t2 = Inr (msgs2, st1) \<and>
           map msg_id msgs2 = map msg_id msgs"
proof -
  let ?ids = "map msg_id (fetch_page (db_messages st) commId userId pg)"
  note r = getCommunityMessages_Inr[OF assms]
  have db: "db_messages st1 = map (mark_delivered ?ids userId t1) (db_messages st)"
    and comm: "db_communities st1 = db_communities st"
    by (simp_all add: r(2))
  have ids: "map msg_id (fetch_page (db_messages st1) commId userId pg) = ?ids"
    by (simp add: db fetch_page_mark_delivered comp_def)
  have "map (mark_delivered ?ids userId t2) (db_messages st1) = db_messages st1"
    by (simp add: db mark_delivered_twice)
  then have same:
    "st1\<lparr>db_messages := map (mark_delivered ?ids userId t2) (db_messages st1)\<rparr> = st1"
    by simp
  obtain comm where "db_communities st commId = Some comm"
    and "list_ex (\<lambda>member. user member = userId) (members comm)"
    and "\<not> (int (page pg) - 1) * int (limit pg) < 0"
    using assms by (auto simp: getCommunityMessages_def split: option.splits if_splits)
  then show ?thesis
    using ids same
    by (simp add: getCommunityMessages_def comm Let_def r(1) flip: rev_map)
qed

lemma getCommunityMessages_entries:
  assumes "getCommunityMessages st commId userId pg now = Inr (msgs, st1)"
    and "\<forall>m \<in> set (db_messages st). entries_of userId (deliveredTo m) \<le> 1"
  shows "\<forall>m \<in> set (db_messages st1).
           entries_of userId (deliveredTo m) \<le> 1 \<and>
           (msg_id m \<in> set (map msg_id msgs) \<longrightarrow> entries_of userId (deliveredTo m) = 1)"
proof -
  note r = getCommunityMessages_Inr[OF assms(1)]
  have ids: "set (map msg_id msgs) = set (map msg_id (fetch_page (db_messages st) commId userId pg))"
    by (simp add: r(1))
  show ?thesis
  proof
    fix m assume "m \<in> set (db_messages st1)"
    then obtain m0 where m0: "m0 \<in> set (db_messages st)"
      and m: "m = mark_delivered (map msg_id (fetch_page (db_messages st) commId userId pg))
                    userId now m0"
      by (auto simp: r(2))
    from assms(2) m0 have "entries_of userId (deliveredTo m0) \<le> 1" by blast
    then show "entries_of userId (deliveredTo m) \<le> 1 \<and>
           (msg_id m \<in> set (map msg_id msgs) \<longrightarrow> entries_of userId (deliveredTo m) = 1)"
      unfolding ids m by (auto simp: mark_delivered_entries)
  qed
qed

lemma find_replace:
  assumes "find (\<lambda>m. msg_id m = i) xs = Some m" and "msg_id m' = i"
  shows "find (\<lambda>m. msg_id m = i) (map (\<lambda>m. if msg_id m = i then m' else m) xs) = Some m'"
  using assms by (induction xs) (auto split: if_splits)

lemma find_msg_id: "find (\<lambda>m. msg_id m = i) xs = Some m \<Longrightarrow> msg_id m = i \<and> m \<in> set xs"
  by (induction xs) (auto split: if_splits)

lemma markAsRead_found:
  assumes "Message_findById st messageId = Some msg"
  shows "markAsRead st messageId userId now =
     (if \<not> is_participant st msg userId
        then Inl (ApiError ''Not authorized to mark this message as read'' 403)
      else if userId \<in> set (map user (readBy msg)) then Inr (msg, st)
      else Inr (msg\<lparr>readBy := readBy msg @ [\<lparr>user = userId, stamp = now\<rparr>]\<rparr>,
                st\<lparr>db_messages :=
                     map (\<lambda>m. if msg_id m = messageId
                               then msg\<lparr>readBy := readBy msg @ [\<lparr>user = userId, stamp = now\<rparr>]\<rparr>
                               else m) (db_messages st)\<rparr>))"
  by (auto simp: markAsRead_def assms is_participant_def Let_def list_ex_user)

lemma markAsRead_InrE:
  assumes "markAsRead st messageId userId now = Inr (m1, st1)"
  obtains msg where "Message_findById st messageId = Some msg"
    and "is_participant st msg userId"
proof (cases "Message_findById st messageId")
  case None
  with assms show thesis by (simp add: markAsRead_def)
next
  case (Some msg)
  with assms have "is_participant st msg userId"
    by (auto simp: markAsRead_found split: if_splits)
  with Some show thesis by (rule that)
qed

lemma is_participant_readBy:
  "is_participant (st\<lparr>db_messages := xs\<rparr>) (msg\<lparr>readBy := r\<rparr>) userId
     = is_participant st msg userId"
  by (simp add: is_participant_def isCommunityMember_def)

lemma markAsRead_again:
  assumes "markAsRead st messageId userId t1 = Inr (m1, st1)"
  shows "markAsRead st1 messageId userId t2 = Inr (m1, st1) \<and>
         Message_findById st1 messageId = Some m1 \<and> userId \<in> set (map user (readBy m1))"
proof -
  from assms obtain msg where f: "Message_findById st messageId = Some msg"
    and p: "is_participant st msg userId"
    by (rule markAsRead_InrE)
  show ?thesis
  proof (cases "userId \<in> set (map user (readBy msg))")
    case True
    with assms f p have "m1 = msg" "st1 = st" by (simp_all add: markAsRead_found)
    with f p True show ?thesis by (simp add: markAsRead_found)
  next
    case False
    let ?m = "msg\<lparr>readBy := readBy msg @ [\<lparr>user = userId, stamp = t1\<rparr>]\<rparr>"
    let ?xs = "map (\<lambda>m. if msg_id m = messageId then ?m else m) (db_messages st)"
    from assms f p False have eq: "m1 = ?m" "st1 = st\<lparr>db_messages := ?xs\<rparr>"
      by (simp_all add: markAsRead_found)
    have "msg_id ?m = messageId"
      using f find_msg_id by (fastforce simp: Message_findById_def)
    then have f1: "Message_findById st1 messageId = Some ?m"
      using f by (simp add: eq Message_findById_def find_replace)
    have p1: "is_participant st1 ?m userId"
      using p by (simp add: eq is_participant_readBy)
    have "userId \<in> set (map user (readBy ?m))" by simp
    with f1 p1 show ?thesis
      unfolding markAsRead_found[OF f1] eq(1) by simp
  qed
qed

lemma markAsRead_entries:
  assumes "markAsRead st messageId userId now = Inr (m1, st1)"
    and "\<forall>m \<in> set (db_messages st). entries_of userId (readBy m) \<le> 1"
  shows "entries_of userId (readBy m1) = 1 \<and>
         (\<forall>m \<in> set (db_messages st1). entries_of userId (readBy m) \<le> 1)"
proof -
  from assms(1) obtain msg where f: "Message_findById st messageId = Some msg"
    and p: "is_participant st msg userId"
    by (rule markAsRead_InrE)
  have mem: "msg \<in> set (db_messages st)"
    using f find_msg_id by (fastforce simp: Message_findById_def)
  with assms(2) have le: "entries_of userId (readBy msg) \<le> 1" by blast
  show ?thesis
  proof (cases "userId \<in> set (map user (readBy msg))")
    case True
    with assms(1) f p have "m1 = msg" "st1 = st" by (simp_all add: markAsRead_found)
    moreover from True have "entries_of userId (readBy msg) \<noteq> 0"
      by (simp add: entries_of_0)
    ultimately show ?thesis using le assms(2) by auto
  next
    case False
    then have z: "entries_of userId (readBy msg) = 0" by (simp add: entries_of_0)
    let ?m = "msg\<lparr>readBy := readBy msg @ [\<lparr>user = userId, stamp = now\<rparr>]\<rparr>"
    from assms(1) f p False have eq: "m1 = ?m"
      "st1 = st\<lparr>db_messages :=
                 map (\<lambda>m. if msg_id m = messageId then ?m else m) (db_messages st)\<rparr>"
      by (simp_all add: markAsRead_found)
    show ?thesis using z assms(2) by (auto simp: eq)
  qed
qed

text \<open>A message enters the store with the entry of its sender in \<open>deliveredTo\<close> and an
  empty \<open>readBy\<close>, so sending messages keeps the entries of every user at one at most.\<close>

lemma sendMessage_entries:
  assumes "sendMessage st data sender_id ai now newId = Inr (m, st')"
    and "\<forall>m \<in> set (db_messages st).
           entries_of userId (deliveredTo m) \<le> 1 \<and> entries_of userId (readBy m) \<le> 1"
  shows "\<forall>m \<in> set (db_messages st').
           entries_of userId (deliveredTo m) \<le> 1 \<and> entries_of userId (readBy m) \<le> 1"
proof -
  from assms(1) obtain comm recv chan where
    "Message_create st
       (new_message data sender_id now newId comm recv chan
          (message_analysis ai (md_content data))) = Inr (m, st')"
    by (rule sendMessage_InrE)
  then have "db_messages st' = db_messages st @ [m]" "deliveredTo m = [\<lparr>user = sender_id, stamp = now\<rparr>]"
    "readBy m = []"
    by (auto simp: Message_create_def new_message_def split: if_splits)
  with assms(2) show ?thesis
    by (auto simp: entries_of_def)
qed

text \<open>
  C7. Let no message have more than one \<open>deliveredTo\<close> entry and more than one \<open>readBy\<close>
  entry of the user (sending a message, fetching a page and marking as read all keep it
  so). When a page of community messages is
  fetched, fetching it again succeeds, shows the same messages and changes nothing in the
  store, and every message of the page has exactly one \<open>deliveredTo\<close> entry of the user.
  When \<open>markAsRead\<close> has succeeded, a second call returns the same message and changes
  nothing, and the message has exactly one \<open>readBy\<close> entry of the user.
\<close>

theorem receipts_idempotent:
  assumes "\<forall>m \<in> set (db_messages st).
             entries_of userId (deliveredTo m) \<le> 1 \<and> entries_of userId (readBy m) \<le> 1"
  shows "(getCommunityMessages st commId userId pg t1 = Inr (msgs, st1) \<longrightarrow>
            (\<exists>msgs2. getCommunityMessages st1 commId userId pg t2 = Inr (msgs2, st1) \<and>
                     map msg_id msgs2 = map msg_id msgs) \<and>
            (\<forall>m \<in> set (db_messages st1).
               entries_of userId (deliveredTo m) \<le> 1 \<and>
               (msg_id m \<in> set (map msg_id msgs) \<longrightarrow> entries_of userId (deliveredTo m) = 1))) \<and>
         (markAsRead st messageId userId t1 = Inr (m1, st1') \<longrightarrow>
            markAsRead st1' messageId userId t2 = Inr (m1, st1') \<and>
            Message_findById st1' messageId = Some m1 \<and>
            entries_of userId (readBy m1) = 1 \<and>
            (\<forall>m \<in> set (db_messages st1'). entries_of userId (readBy m) \<le> 1))"
proof (intro conjI impI)
  assume fetched: "getCommunityMessages st commId userId pg t1 = Inr (msgs, st1)"
  show "\<exists>msgs2. getCommunityMessages st1 commId userId pg t2 = Inr (msgs2, st1) \<and>
                     map msg_id msgs2 = map msg_id msgs"
    by (rule getCommunityMessages_again[OF fetched])
  show "\<forall>m \<in> set (db_messages st1).
               entries_of userId (deliveredTo m) \<le> 1 \<and>
               (msg_id m \<in> set (map msg_id msgs) \<longrightarrow> entries_of userId (deliveredTo m) = 1)"
    using getCommunityMessages_entries[OF fetched] assms by blast
next
  assume marked: "markAsRead st messageId userId t1 = Inr (m1, st1')"
  show "markAsRead st1' messageId userId t2 = Inr (m1, st1')"
    "Message_findById st1' messageId = Some m1"
    using markAsRead_again[OF marked] by simp_all
  show "entries_of userId (readBy m1) = 1"
    "\<forall>m \<in> set (db_messages st1'). entries_of userId (readBy m) \<le> 1"
    using markAsRead_entries[OF marked] assms by simp_all
qed

text \<open>In the forum with the one message of \<open>u1\<close>, the member \<open>u2\<close> fetches the first page
  twice and marks the message as read twice: the message ends with one \<open>deliveredTo\<close>
  entry and one \<open>readBy\<close> entry of \<open>u2\<close>.\<close>

theorem receipts_idempotent_witness:
  "(\<exists>msgs st1. getCommunityMessages chat_state ''c1'' ''u2'' first_page 10 = Inr (msgs, st1) \<and>
      map msg_id msgs = [''m1''] \<and>
      (\<exists>msgs2. getCommunityMessages st1 ''c1'' ''u2'' first_page 11 = Inr (msgs2, st1) \<and>
                map msg_id msgs2 = [''m1'']) \<and>
      map (\<lambda>m. entries_of ''u2'' (deliveredTo m)) (db_messages st1) = [1]) \<and>
   (\<exists>m1 st1. markAsRead chat_state ''m1'' ''u2'' 10 = Inr (m1, st1) \<and>
      markAsRead st1 ''m1'' ''u2'' 11 = Inr (m1, st1) \<and>
      entries_of ''u2'' (readBy m1) = 1)"
proof -
  have start: "\<forall>m \<in> set (db_messages chat_state).
      entries_of ''u2'' (deliveredTo m) \<le> 1 \<and> entries_of ''u2'' (readBy m) \<le> 1"
    by (simp add: chat_state_def channel_message_def entries_of_def)
  have page: "fetch_page (db_messages chat_state) ''c1'' ''u2'' first_page = [channel_message]"
    by (simp add: fetch_page_def chat_state_def channel_message_def first_page_def Let_def)
  have "db_communities chat_state ''c1'' = Some forum_community"
    by (simp add: chat_state_def forum_state_def empty_state_def)
  moreover have "list_ex (\<lambda>member. user member = ''u2'') (members forum_community)"
    by (simp add: forum_community_def)
  moreover have "1 \<le> page first_page"
    by (simp add: first_page_def)
  ultimately obtain st1 where
    fetched: "getCommunityMessages chat_state ''c1'' ''u2'' first_page 10 =
      Inr ([channel_message], st1)"
    using getCommunityMessages_succeeds[of chat_state "''c1''" forum_community "''u2''"
        first_page 10]
    by (simp add: page)
  have len: "length (db_messages st1) = 1"
    using getCommunityMessages_Inr(2)[OF fetched] by (simp add: chat_state_def)
  have found: "Message_findById chat_state ''m1'' = Some channel_message"
    by (simp add: Message_findById_def chat_state_def channel_message_def)
  have "is_participant chat_state channel_message ''u2''"
    by (simp add: is_participant_def isCommunityMember_def channel_message_def truthy_def
        chat_state_def forum_state_def forum_community_def empty_state_def)
  then obtain m1 st1' where marked: "markAsRead chat_state ''m1'' ''u2'' 10 = Inr (m1, st1')"
    by (cases "markAsRead chat_state ''m1'' ''u2'' 10")
       (auto simp: markAsRead_found[OF found] split: if_splits)
  note inst = receipts_idempotent[OF start, where commId = "''c1''" and pg = first_page
      and ?t1.0 = 10 and msgs = "[channel_message]" and ?st1.0 = st1 and ?t2.0 = 11
      and messageId = "''m1''" and ?m1.0 = m1 and st1' = st1']
  have one: "\<forall>m \<in> set (db_messages st1). entries_of ''u2'' (deliveredTo m) = 1"
    using inst fetched getCommunityMessages_Inr(2)[OF fetched]
    by (simp add: chat_state_def channel_message_def)
  have "map (\<lambda>m. entries_of ''u2'' (deliveredTo m)) (db_messages st1) = [1]"
    using len one by (cases "db_messages st1") simp_all
  moreover have "\<exists>msgs2. getCommunityMessages st1 ''c1'' ''u2'' first_page 11 = Inr (msgs2, st1) \<and>
      map msg_id msgs2 = [''m1'']"
    using inst fetched by (simp add: channel_message_def)
  moreover have "markAsRead st1' ''m1'' ''u2'' 11 = Inr (m1, st1') \<and>
      entries_of ''u2'' (readBy m1) = 1"
    using inst marked by simp
  ultimately show ?thesis
    using fetched marked by (simp add: channel_message_def)
qed


end
